theory Spec2Isabelle
  imports Complex_Main "HOL-Library.Sublist"
begin

section \<open>JavaScript strings\<close>

text \<open>
  The plugin (\<^verbatim>\<open>src/main.ts\<close>) uses five string operations of the language:
  \<^verbatim>\<open>includes\<close>, \<^verbatim>\<open>replace\<close> with a string pattern, \<^verbatim>\<open>slice(0, 100)\<close>, \<^verbatim>\<open>trim\<close> and
  \<^verbatim>\<open>toLowerCase\<close>. A string is the list of its code units.
\<close>

text \<open>\<^verbatim>\<open>s.indexOf(pat)\<close>: the least position at which \<open>pat\<close> starts, if any.\<close>

fun indexOf :: "string \<Rightarrow> string \<Rightarrow> nat option" where
  "indexOf [] pat = (if pat = [] then Some 0 else None)"
| "indexOf (c # cs) pat =
     (if prefix pat (c # cs) then Some 0 else map_option Suc (indexOf cs pat))"

definition includes_str :: "string \<Rightarrow> string \<Rightarrow> bool" where
  "includes_str s pat = (indexOf s pat \<noteq> None)"

text \<open>
  The replacement text of \<^verbatim>\<open>replace\<close> is a template (ECMAScript GetSubstitution).
  With a string pattern there are no capture groups, so the only patterns that expand are
  \<^verbatim>\<open>$$\<close> (a dollar sign), \<^verbatim>\<open>$&\<close> (the matched text), \<^verbatim>\<open>$`\<close> (the text before the
  match) and \<^verbatim>\<open>$'\<close> (the text after it); every other dollar sign is literal.
\<close>

fun getSubstitution :: "string \<Rightarrow> string \<Rightarrow> string \<Rightarrow> string \<Rightarrow> string" where
  "getSubstitution matched before after [] = []"
| "getSubstitution matched before after [c] = [c]"
| "getSubstitution matched before after (c # d # ds) =
     (if c = CHR ''$'' then
        (if d = CHR ''$'' then CHR ''$'' # getSubstitution matched before after ds
         else if d = CHR ''&'' then matched @ getSubstitution matched before after ds
         else if d = CHR 0x60 then before @ getSubstitution matched before after ds
         else if d = CHR 0x27 then after @ getSubstitution matched before after ds
         else c # getSubstitution matched before after (d # ds))
      else c # getSubstitution matched before after (d # ds))"

text \<open>
  \<^verbatim>\<open>s.replace(pat, repl)\<close> with a string pattern: only the first occurrence is
  replaced; a string without the pattern is returned as it is.
\<close>

definition replace_str :: "string \<Rightarrow> string \<Rightarrow> string \<Rightarrow> string" where
  "replace_str s pat repl =
     (case indexOf s pat of
        None \<Rightarrow> s
      | Some pos \<Rightarrow>
          take pos s
          @ getSubstitution pat (take pos s) (drop (pos + length pat) s) repl
          @ drop (pos + length pat) s)"

text \<open>\<^verbatim>\<open>String(n)\<close> for a non-negative integer: its decimal digits.\<close>

definition digit :: "nat \<Rightarrow> char" where
  "digit d = ''0123456789'' ! d"

function String_of_nat :: "nat \<Rightarrow> string" where
  "String_of_nat n = (if n < 10 then [digit n] else String_of_nat (n div 10) @ [digit (n mod 10)])"
  by pat_completeness auto
termination
  by (relation "measure (\<lambda>n. n)") auto

declare String_of_nat.simps [simp del]

text \<open>
  \<^verbatim>\<open>trim\<close>: the white space at both ends is removed (the ASCII white space; the Unicode
  spaces beyond it are not modelled).
\<close>

definition isWhiteSpace :: "char \<Rightarrow> bool" where
  "isWhiteSpace c = (c \<in> set [CHR 0x20, CHR 0x09, CHR 0x0A, CHR 0x0B, CHR 0x0C, CHR 0x0D])"

definition trim :: "string \<Rightarrow> string" where
  "trim s = rev (dropWhile isWhiteSpace (rev (dropWhile isWhiteSpace s)))"

text \<open>\<^verbatim>\<open>toLowerCase\<close>, on the ASCII letters (other code units are left as they are).\<close>

definition lowerChar :: "char \<Rightarrow> char" where
  "lowerChar c =
     (case map_of (zip ''ABCDEFGHIJKLMNOPQRSTUVWXYZ'' ''abcdefghijklmnopqrstuvwxyz'') c of
        Some l \<Rightarrow> l
      | None \<Rightarrow> c)"

definition toLowerCase :: "string \<Rightarrow> string" where
  "toLowerCase s = map lowerChar s"


section \<open>JavaScript numbers\<close>

text \<open>
  The interval setting and the timer delays are JavaScript numbers. A finite double is
  the real it stands for; \<open>NaN\<close> and the two infinities are values of their own, since
  \<^verbatim>\<open>Number(value)\<close> can return them. Only comparisons with zero are computed here: the one
  product of the source, \<^verbatim>\<open>minutes * 60000\<close>, rounds and overflows as doubles do and is a
  parameter (\<open>times60000\<close> of the window).
\<close>

datatype number = NaN | PosInf | NegInf | Num real

text \<open>\<^verbatim>\<open>isNaN(n)\<close>, \<^verbatim>\<open>n > 0\<close>, \<^verbatim>\<open>n <= 0\<close> and the truthiness of \<^verbatim>\<open>n\<close>.\<close>

fun isNaN :: "number \<Rightarrow> bool" where
  "isNaN NaN = True"
| "isNaN PosInf = False"
| "isNaN NegInf = False"
| "isNaN (Num r) = False"

fun gt0 :: "number \<Rightarrow> bool" where
  "gt0 NaN = False"
| "gt0 PosInf = True"
| "gt0 NegInf = False"
| "gt0 (Num r) = (0 < r)"

fun le0 :: "number \<Rightarrow> bool" where
  "le0 NaN = False"
| "le0 PosInf = False"
| "le0 NegInf = True"
| "le0 (Num r) = (r \<le> 0)"

fun truthy :: "number \<Rightarrow> bool" where
  "truthy NaN = False"
| "truthy PosInf = True"
| "truthy NegInf = True"
| "truthy (Num r) = (r \<noteq> 0)"

text \<open>
  A field that holds \<^verbatim>\<open>undefined\<close> until it is assigned (\<open>intervalID\<close>, \<open>lastUpdate\<close>)
  is an option; in a condition, \<^verbatim>\<open>undefined\<close> and \<open>0\<close> are false.
\<close>

fun defined :: "nat option \<Rightarrow> bool" where
  "defined None = False"
| "defined (Some n) = (n \<noteq> 0)"

section \<open>The data of the plugin\<close>

datatype PluginState = Idle | Status | Pull | Add | Commit | Push

record ObsidianGitSettings =
  commitMessage :: string
  commitDateFormat :: string
  autoSaveInterval :: number
  autoPullOnBoot :: bool
  autoPush :: bool
  disablePopups :: bool
  currentBranch :: string
  remote :: string

text \<open>
  \<^verbatim>\<open>new ObsidianGitSettings()\<close>. The branch and the remote have no initial value; they are
  empty here until \<open>onload\<close> assigns them.
\<close>

definition ObsidianGitSettings_new :: ObsidianGitSettings where
  "ObsidianGitSettings_new =
     \<lparr>commitMessage = ''vault backup: {{date}}'',
      commitDateFormat = ''YYYY-MM-DD HH:mm:ss'',
      autoSaveInterval = Num 0,
      autoPullOnBoot = False,
      autoPush = True,
      disablePopups = False,
      currentBranch = [],
      remote = []\<rparr>"

record StatusBar =
  statusBarEl :: string
  isDisplayingMessage :: bool

text \<open>
  The calls the plugin makes on the git client, in the order it makes them, and the
  timers it holds on the window. A timer's callback is one of the three closures of the
  source: \<^verbatim>\<open>async () => await this.createBackup()\<close>,
  \<^verbatim>\<open>() => this.refreshStatusBar()\<close> and \<^verbatim>\<open>() => { this.isDisplayingMessage = false; }\<close>.
\<close>

datatype git_call =
  is_status: Git_status
| is_add: Git_add string
| is_commit: Git_commit string
| is_push: Git_push string string
| is_pull: Git_pull

datatype callback = Backup | RefreshBar | ResetMessage

datatype timer = Interval callback number | Timeout callback number

fun callbackOf :: "timer \<Rightarrow> callback" where
  "callbackOf (Interval cb ms) = cb"
| "callbackOf (Timeout cb ms) = cb"

text \<open>
  The plugin object, with the part of the host it acts on: the window's active timers
  and the last handle handed out, the intervals registered for unloading, the notices
  shown, the console, the settings saved and the status, add, commit, push and pull
  calls made on the git client.
\<close>

record ObsidianGit =
  settings :: ObsidianGitSettings
  statusBar :: StatusBar
  state :: PluginState
  intervalID :: "nat option"
  lastUpdate :: "nat option"
  timers :: "(nat \<times> timer) list"
  lastHandle :: nat
  registered :: "nat list"
  notices :: "string list"
  console :: "string list"
  saved :: "ObsidianGitSettings list"
  calls :: "git_call list"

text \<open>
  The collaborators are parameters. The git client (simple-git) answers each call with a
  value or fails with an error, of which the plugin reads the message; an answer may
  depend on the calls made before. A failed call invokes the trailing callback, when the
  plugin passed one, with the error, and rejects the promise the plugin awaits. The two
  calls that \<open>onload\<close> makes once are not recorded: \<^verbatim>\<open>branch()\<close>, of which it reads the
  current branch, and \<^verbatim>\<open>remote([])\<close>, which answers with a string or with nothing.
\<close>

record SimpleGit =
  git_status :: "git_call list \<Rightarrow> string + string list"
  git_add :: "git_call list \<Rightarrow> string + unit"
  git_commit :: "git_call list \<Rightarrow> string + unit"
  git_push :: "git_call list \<Rightarrow> string + unit"
  git_pull :: "git_call list \<Rightarrow> string + string list"
  git_branch :: "string + string"
  git_remote :: "string + string option"

text \<open>
  The clock (\<^verbatim>\<open>Date.now()\<close>, which may advance with every git call), the date library
  (\<^verbatim>\<open>moment().format(f)\<close> and \<^verbatim>\<open>moment(t).fromNow()\<close>, both at the current time), the
  conversions \<^verbatim>\<open>Number(s)\<close> and \<^verbatim>\<open>String(n)\<close> of the language, its product
  \<^verbatim>\<open>n * 60000\<close> of doubles, and the settings that \<^verbatim>\<open>loadData()\<close> finds saved, if any.
\<close>

record window =
  dateNow :: "git_call list \<Rightarrow> nat"
  momentFormat :: "nat \<Rightarrow> string \<Rightarrow> string"
  momentFromNow :: "nat \<Rightarrow> nat \<Rightarrow> string"
  Number :: "string \<Rightarrow> number"
  String_of_number :: "number \<Rightarrow> string"
  times60000 :: "number \<Rightarrow> number"
  loadData :: "ObsidianGitSettings option"

text \<open>
  An \<^verbatim>\<open>async\<close> function is run to the end: its result is the settled promise, \<open>Inr\<close> the
  value it resolves with or \<open>Inl\<close> the message of the error it rejects with, and the
  plugin as the function left it. \<open>andThen\<close> is \<^verbatim>\<open>await p\<close> followed by the rest of
  the function, and \<^verbatim>\<open>p.then(k)\<close>: a rejection skips the rest.
\<close>

type_synonym 'a promise = "(string + 'a) \<times> ObsidianGit"

definition andThen :: "'a promise \<Rightarrow> ('a \<Rightarrow> ObsidianGit \<Rightarrow> 'b promise) \<Rightarrow> 'b promise" where
  "andThen p k = (case p of (Inl err, w) \<Rightarrow> (Inl err, w) | (Inr x, w) \<Rightarrow> k x w)"

section \<open>The window's timers\<close>

text \<open>Handles are positive and never handed out twice.\<close>

definition setInterval :: "callback \<Rightarrow> number \<Rightarrow> ObsidianGit \<Rightarrow> nat \<times> ObsidianGit" where
  "setInterval cb ms w =
     (Suc (lastHandle w),
      w\<lparr>timers := timers w @ [(Suc (lastHandle w), Interval cb ms)],
        lastHandle := Suc (lastHandle w)\<rparr>)"

definition setTimeout :: "callback \<Rightarrow> number \<Rightarrow> ObsidianGit \<Rightarrow> nat \<times> ObsidianGit" where
  "setTimeout cb ms w =
     (Suc (lastHandle w),
      w\<lparr>timers := timers w @ [(Suc (lastHandle w), Timeout cb ms)],
        lastHandle := Suc (lastHandle w)\<rparr>)"

definition clearInterval :: "nat \<Rightarrow> ObsidianGit \<Rightarrow> ObsidianGit" where
  "clearInterval h w = w\<lparr>timers := filter (\<lambda>t. fst t \<noteq> h) (timers w)\<rparr>"

definition Notice :: "string \<Rightarrow> ObsidianGit \<Rightarrow> ObsidianGit" where
  "Notice message w = w\<lparr>notices := notices w @ [message]\<rparr>"

definition saveData :: "ObsidianGit \<Rightarrow> ObsidianGit" where
  "saveData w = w\<lparr>saved := saved w @ [settings w]\<rparr>"

section \<open>class StatusBar\<close>

text \<open>
  \<open>displayMessage\<close> (lines 419 to 428), \<open>displayState\<close> (430 to 455) and \<open>displayFromNow\<close>
  (457 to 465). \<open>displayMessage\<close> sets a timeout on the window, so it acts on the plugin
  with its window; the other two act on the bar alone.
\<close>

definition setText :: "string \<Rightarrow> StatusBar \<Rightarrow> StatusBar" where
  "setText t sb = sb\<lparr>statusBarEl := t\<rparr>"

definition StatusBar_displayMessage :: "string \<Rightarrow> number \<Rightarrow> ObsidianGit \<Rightarrow> ObsidianGit" where
  "StatusBar_displayMessage message timeout w =
     (let w1 = w\<lparr>statusBar :=
                  setText (''git: '' @ take 100 message)
                    ((statusBar w)\<lparr>isDisplayingMessage := True\<rparr>)\<rparr>
      in if truthy timeout \<and> gt0 timeout
         then snd (setTimeout ResetMessage timeout w1)
         else w1)"

definition displayFromNow :: "window \<Rightarrow> nat \<Rightarrow> nat option \<Rightarrow> StatusBar \<Rightarrow> StatusBar" where
  "displayFromNow E now timestamp sb =
     (if defined timestamp
      then setText (''git: last update '' @ momentFromNow E now (the timestamp) @ ''..'') sb
      else setText ''git: ready'' sb)"

definition displayState ::
  "window \<Rightarrow> nat \<Rightarrow> PluginState \<Rightarrow> nat option \<Rightarrow> StatusBar \<Rightarrow> StatusBar" where
  "displayState E now st lastUpd sb =
     (if isDisplayingMessage sb then sb
      else (case st of
              Idle \<Rightarrow> displayFromNow E now lastUpd sb
            | Status \<Rightarrow> setText ''git: checking repo status..'' sb
            | Add \<Rightarrow> setText ''git: adding files to repo..'' sb
            | Commit \<Rightarrow> setText ''git: committing changes..'' sb
            | Push \<Rightarrow> setText ''git: pushing changes..'' sb
            | Pull \<Rightarrow> setText ''git: pulling changes..'' sb))"


section \<open>class ObsidianGit\<close>

text \<open>
  The methods of the plugin, in the order of \<^verbatim>\<open>src/main.ts\<close>: \<open>setState\<close> and \<open>getState\<close>
  (lines 23 to 30), \<open>displayMessage\<close>, \<open>displayError\<close> and \<open>refreshStatusBar\<close> (213 to 230),
  \<open>formatCommitMessage\<close> (232 to 244), \<open>getFilesChanged\<close>, \<open>add\<close>, \<open>commit\<close>, \<open>push\<close> and
  \<open>pull\<close> (142 to 190), \<open>pullChangesFromRemote\<close> and \<open>createBackup\<close> (104 to 135), the
  callback of the push command (91 to 100), \<open>enableAutoBackup\<close> and \<open>disableAutoBackup\<close>
  (194 to 210) and \<open>onload\<close> (32 to 102). Each takes the git client \<open>G\<close> and the window \<open>E\<close>
  it uses, and the plugin \<open>w\<close>.
\<close>

definition getState :: "ObsidianGit \<Rightarrow> PluginState" where
  [simp]: "getState w = state w"

definition refreshStatusBar :: "window \<Rightarrow> ObsidianGit \<Rightarrow> ObsidianGit" where
  "refreshStatusBar E w =
     w\<lparr>statusBar :=
         displayState E (dateNow E (calls w)) (getState w) (lastUpdate w) (statusBar w)\<rparr>"

definition setState :: "window \<Rightarrow> PluginState \<Rightarrow> ObsidianGit \<Rightarrow> ObsidianGit" where
  "setState E st w = refreshStatusBar E (w\<lparr>state := st\<rparr>)"

text \<open>
  The optional \<open>timeout\<close> parameter is \<open>None\<close> where the caller leaves it out: the
  default is \<^verbatim>\<open>4 * 1000\<close> for \<open>displayMessage\<close> and \<open>0\<close> for \<open>displayError\<close>.
\<close>

definition displayMessage :: "string \<Rightarrow> number option \<Rightarrow> ObsidianGit \<Rightarrow> ObsidianGit" where
  "displayMessage message timeout w =
     (let w1 = StatusBar_displayMessage (toLowerCase message)
                 (case timeout of None \<Rightarrow> Num (4 * 1000) | Some t \<Rightarrow> t) w;
          w2 = (if \<not> disablePopups (settings w1) then Notice message w1 else w1)
      in w2\<lparr>console := console w2 @ [''git obsidian: '' @ message]\<rparr>)"

definition displayError :: "string \<Rightarrow> number option \<Rightarrow> ObsidianGit \<Rightarrow> ObsidianGit" where
  "displayError message timeout w =
     StatusBar_displayMessage (toLowerCase message)
       (case timeout of None \<Rightarrow> Num 0 | Some t \<Rightarrow> t) (Notice message w)"

text \<open>\<^verbatim>\<open>await this.git.status()\<close>: the call is recorded, the answer is the client's.\<close>

definition status :: "SimpleGit \<Rightarrow> ObsidianGit \<Rightarrow> (string list) promise" where
  "status G w = (git_status G (calls w), w\<lparr>calls := calls w @ [Git_status]\<rparr>)"

definition formatCommitMessage ::
  "SimpleGit \<Rightarrow> window \<Rightarrow> string \<Rightarrow> ObsidianGit \<Rightarrow> string promise" where
  "formatCommitMessage G E template w =
     andThen
       (if includes_str template ''{{numFiles}}''
        then andThen (status G w)
               (\<lambda>files w1.
                  (Inr (replace_str template ''{{numFiles}}'' (String_of_nat (length files))), w1))
        else (Inr template, w))
       (\<lambda>template w2.
          (Inr (replace_str template ''{{date}}''
                  (momentFormat E (dateNow E (calls w2)) (commitDateFormat (settings w2)))),
           w2))"

definition getFilesChanged :: "SimpleGit \<Rightarrow> window \<Rightarrow> ObsidianGit \<Rightarrow> (string list) promise" where
  "getFilesChanged G E w = status G (setState E Status w)"

definition add :: "SimpleGit \<Rightarrow> window \<Rightarrow> ObsidianGit \<Rightarrow> unit promise" where
  "add G E w =
     (let w1 = setState E Add w;
          w2 = w1\<lparr>calls := calls w1 @ [Git_add ''./*'']\<rparr>
      in case git_add G (calls w1) of
           Inl err \<Rightarrow> (Inl err, displayError (''Cannot add files: '' @ err) None w2)
         | Inr u \<Rightarrow> (Inr (), w2))"

definition commit :: "SimpleGit \<Rightarrow> window \<Rightarrow> ObsidianGit \<Rightarrow> unit promise" where
  "commit G E w =
     andThen (formatCommitMessage G E (commitMessage (settings w)) (setState E Commit w))
       (\<lambda>commitMessage w1.
          (git_commit G (calls w1), w1\<lparr>calls := calls w1 @ [Git_commit commitMessage]\<rparr>))"

definition push :: "SimpleGit \<Rightarrow> window \<Rightarrow> ObsidianGit \<Rightarrow> unit promise" where
  "push G E w =
     (let w1 = setState E Push w;
          w2 = w1\<lparr>calls := calls w1
                  @ [Git_push (remote (settings w1)) (currentBranch (settings w1))]\<rparr>
      in case git_push G (calls w1) of
           Inl err \<Rightarrow> (Inl err, displayError (''Push failed '' @ err) None w2)
         | Inr u \<Rightarrow> (Inr (), w2\<lparr>lastUpdate := Some (dateNow E (calls w2))\<rparr>))"

definition pull :: "SimpleGit \<Rightarrow> window \<Rightarrow> ObsidianGit \<Rightarrow> nat promise" where
  "pull G E w =
     (let w1 = setState E Pull w;
          w2 = w1\<lparr>calls := calls w1 @ [Git_pull]\<rparr>
      in case git_pull G (calls w1) of
           Inl err \<Rightarrow> (Inl err, displayError (''Pull failed '' @ err) None w2)
         | Inr files \<Rightarrow> (Inr (length files), w2\<lparr>lastUpdate := Some (dateNow E (calls w2))\<rparr>))"

definition pullChangesFromRemote :: "SimpleGit \<Rightarrow> window \<Rightarrow> ObsidianGit \<Rightarrow> unit promise" where
  "pullChangesFromRemote G E w =
     andThen
       (andThen (pull G E w)
          (\<lambda>filesUpdated w1.
             (Inr (),
              if filesUpdated > 0
              then displayMessage
                     (''Pulled new changes. '' @ String_of_nat filesUpdated @ '' files updated'')
                     None w1
              else displayMessage ''Everything is up-to-date'' None w1)))
       (\<lambda>u w2. (Inr (), setState E Idle w2))"

definition createBackup :: "SimpleGit \<Rightarrow> window \<Rightarrow> ObsidianGit \<Rightarrow> unit promise" where
  "createBackup G E w =
     andThen
       (andThen (getFilesChanged G E w)
          (\<lambda>files w1.
             if length files = 0 then (Inr (), w1)
             else
               andThen
                 (andThen (andThen (add G E w1) (\<lambda>u w2. commit G E w2))
                    (\<lambda>u w3.
                       (Inr (),
                        displayMessage
                          (''Committed '' @ String_of_nat (length files) @ '' files'') None w3)))
                 (\<lambda>u w4.
                    if autoPush (settings w4)
                    then andThen (push G E w4)
                           (\<lambda>u w5.
                              (Inr (),
                               displayMessage
                                 (''Pushed '' @ String_of_nat (length files) @ '' files to remote'')
                                 None w5))
                    else (Inr (), w4))))
       (\<lambda>u w6. (Inr (), setState E Idle w6))"

text \<open>The callback of the command "Commit *all* changes and push to remote repository".\<close>

definition pushCommand :: "SimpleGit \<Rightarrow> window \<Rightarrow> ObsidianGit \<Rightarrow> unit promise" where
  "pushCommand G E w =
     andThen (getFilesChanged G E w)
       (\<lambda>files w1.
          if length files = 0 then (Inr (), displayMessage ''No changes detected'' None w1)
          else createBackup G E w1)"

definition enableAutoBackup :: "window \<Rightarrow> ObsidianGit \<Rightarrow> ObsidianGit" where
  "enableAutoBackup E w =
     (let minutes = autoSaveInterval (settings w);
          (h, w1) = setInterval Backup (times60000 E minutes) w;
          w2 = w1\<lparr>intervalID := Some h\<rparr>
      in w2\<lparr>registered := registered w2 @ [h]\<rparr>)"

definition disableAutoBackup :: "ObsidianGit \<Rightarrow> bool \<times> ObsidianGit" where
  "disableAutoBackup w =
     (if defined (intervalID w) then (True, clearInterval (the (intervalID w)) w)
      else (False, w))"

text \<open>
  \<open>onload\<close>, on the plugin object as the host constructs it. \<^verbatim>\<open>checkIsRepo\<close> is not
  awaited: \<open>isValidRepo\<close> is a promise, which is true in a condition, so the branch
  "Valid git repository not found." is never taken. A rejected \<^verbatim>\<open>branch()\<close>, \<^verbatim>\<open>remote([])\<close>
  or pull ends \<open>onload\<close> there. Adding the settings tab and the two commands changes
  nothing of the plugin; the commands are \<open>pullChangesFromRemote\<close> and \<open>pushCommand\<close>.
\<close>

definition onload :: "SimpleGit \<Rightarrow> window \<Rightarrow> ObsidianGit \<Rightarrow> unit promise" where
  "onload G E w =
     (let w1 = setState E Idle
                 (w\<lparr>statusBar := \<lparr>statusBarEl = [], isDisplayingMessage = False\<rparr>\<rparr>);
          w2 = w1\<lparr>settings :=
                  (case loadData E of Some s \<Rightarrow> s | None \<Rightarrow> ObsidianGitSettings_new)\<rparr>
      in andThen (git_branch G, w2)
           (\<lambda>current w3.
              andThen (git_remote G, w3\<lparr>settings := (settings w3)\<lparr>currentBranch := current\<rparr>\<rparr>)
                (\<lambda>remoteAnswer w4.
                   case remoteAnswer of
                     None \<Rightarrow> (Inr (), displayMessage ''Failed to detect remote.'' (Some (Num 0)) w4)
                   | Some r \<Rightarrow>
                       andThen
                         (let w5 = w4\<lparr>settings := (settings w4)\<lparr>remote := trim r\<rparr>\<rparr>
                          in if autoPullOnBoot (settings w5)
                             then andThen (pull G E w5)
                                    (\<lambda>filesUpdated w6.
                                       (Inr (),
                                        displayMessage
                                          (if filesUpdated > 0
                                           then ''Pulled new changes. '' @ String_of_nat filesUpdated
                                                  @ '' files updated''
                                           else ''Everything up-to-date'')
                                          None (setState E Idle w6)))
                             else (Inr (), w5))
                         (\<lambda>u w7.
                            let w8 = (if gt0 (autoSaveInterval (settings w7))
                                      then enableAutoBackup E w7 else w7);
                                (h, w9) = setInterval RefreshBar (Num 1000) w8
                            in (Inr (), w9\<lparr>registered := registered w9 @ [h]\<rparr>)))))"

section \<open>The interval setting of the settings tab\<close>

text \<open>The \<open>onChange\<close> handler of "Vault backup interval (minutes)" (lines 276 to 297).\<close>

definition onChange_autoSaveInterval :: "window \<Rightarrow> string \<Rightarrow> ObsidianGit \<Rightarrow> ObsidianGit" where
  "onChange_autoSaveInterval E v w =
     (if \<not> isNaN (Number E v) then
        (let w1 = saveData (w\<lparr>settings := (settings w)\<lparr>autoSaveInterval := Number E v\<rparr>\<rparr>)
         in if gt0 (autoSaveInterval (settings w1)) then
              Notice
                (''Automatic backup enabled! Every ''
                   @ String_of_number E (autoSaveInterval (settings w1)) @ '' minutes.'')
                (enableAutoBackup E (snd (disableAutoBackup w1)))
            else if le0 (autoSaveInterval (settings w1)) \<and> defined (intervalID w1) then
              (case disableAutoBackup w1 of
                 (True, w2) \<Rightarrow> Notice ''Automatic backup disabled!'' w2
               | (False, w2) \<Rightarrow> w2)
            else w1)
      else Notice ''Please specify a valid number.'' w)"

section \<open>Timer events\<close>

text \<open>
  The window runs the callback of an active timer; a handle that is not active (never
  set, cleared, or a timeout that has fired) runs nothing. The promise of the backup
  callback is dropped by the window.
\<close>

definition runCallback :: "SimpleGit \<Rightarrow> window \<Rightarrow> callback \<Rightarrow> ObsidianGit \<Rightarrow> ObsidianGit" where
  "runCallback G E cb w =
     (case cb of
        Backup \<Rightarrow> snd (createBackup G E w)
      | RefreshBar \<Rightarrow> refreshStatusBar E w
      | ResetMessage \<Rightarrow> w\<lparr>statusBar := (statusBar w)\<lparr>isDisplayingMessage := False\<rparr>\<rparr>)"

definition fire :: "SimpleGit \<Rightarrow> window \<Rightarrow> nat \<Rightarrow> ObsidianGit \<Rightarrow> ObsidianGit" where
  "fire G E h w =
     (case map_of (timers w) h of
        None \<Rightarrow> w
      | Some (Interval cb ms) \<Rightarrow> runCallback G E cb w
      | Some (Timeout cb ms) \<Rightarrow> runCallback G E cb (clearInterval h w))"

fun fires :: "SimpleGit \<Rightarrow> window \<Rightarrow> nat list \<Rightarrow> ObsidianGit \<Rightarrow> ObsidianGit" where
  "fires G E [] w = w"
| "fires G E (h # hs) w = fires G E hs (fire G E h w)"







section \<open>What the properties speak of\<close>

text \<open>The git calls made between two moments of a run.\<close>

definition callsSince :: "ObsidianGit \<Rightarrow> ObsidianGit \<Rightarrow> git_call list" where
  "callsSince w w' = drop (length (calls w)) (calls w')"

text \<open>The active timers that run a backup, and those that end a status-bar message.\<close>

definition backupTimers :: "ObsidianGit \<Rightarrow> (nat \<times> timer) list" where
  "backupTimers w = filter (\<lambda>t. callbackOf (snd t) = Backup) (timers w)"

definition resetTimers :: "ObsidianGit \<Rightarrow> (nat \<times> timer) list" where
  "resetTimers w = filter (\<lambda>t. callbackOf (snd t) = ResetMessage) (timers w)"

text \<open>
  The plugin keeps track of its backup timer: every active backup timer has a positive
  handle, and \<open>intervalID\<close> holds it.
\<close>

definition backupTracked :: "ObsidianGit \<Rightarrow> bool" where
  "backupTracked w =
     list_all (\<lambda>t. callbackOf (snd t) \<noteq> Backup \<or> (fst t \<noteq> 0 \<and> intervalID w = Some (fst t)))
       (timers w)"

text \<open>
  Two plugins with the same backup timers and the same \<open>intervalID\<close>, and the plugins that
  can be reached: \<open>onload\<close> runs on a plugin that holds no timer yet; from then on timers
  fire, the two commands and the preview of the commit message run, and fields of the
  settings tab are changed (every field but the interval stores its value and saves the
  settings).
\<close>

definition sameBackupTimer :: "ObsidianGit \<Rightarrow> ObsidianGit \<Rightarrow> bool" where
  "sameBackupTimer w w' = (intervalID w' = intervalID w \<and> backupTimers w' = backupTimers w)"

inductive reachable :: "SimpleGit \<Rightarrow> window \<Rightarrow> ObsidianGit \<Rightarrow> bool" for G E where
  loaded: "timers w = [] \<Longrightarrow> reachable G E (snd (onload G E w))"
| timer_fires: "reachable G E w \<Longrightarrow> reachable G E (fire G E h w)"
| pull_command: "reachable G E w \<Longrightarrow> reachable G E (snd (pullChangesFromRemote G E w))"
| push_command: "reachable G E w \<Longrightarrow> reachable G E (snd (pushCommand G E w))"
| preview:
    "reachable G E w \<Longrightarrow>
     reachable G E (snd (formatCommitMessage G E (commitMessage (settings w)) w))"
| interval_setting: "reachable G E w \<Longrightarrow> reachable G E (onChange_autoSaveInterval E v w)"
| other_setting:
    "reachable G E w \<Longrightarrow> autoSaveInterval s = autoSaveInterval (settings w) \<Longrightarrow>
     reachable G E (saveData (w\<lparr>settings := s\<rparr>))"

text \<open>
  Two plugins that differ at most in the interval setting and in what the settings tab
  touches when the interval is changed (the timers with their handles, \<open>intervalID\<close>, the
  registered intervals, the notices, the settings saved): the git calls made, the state,
  the status bar, \<open>lastUpdate\<close>, the console and every other setting are the same. Two
  promises have the same outcome when they settle alike, with the same value or the same
  error, and leave two such plugins.
\<close>

definition sameBesidesTimers :: "ObsidianGit \<Rightarrow> ObsidianGit \<Rightarrow> bool" where
  "sameBesidesTimers w w' =
     (calls w' = calls w \<and> state w' = state w \<and> statusBar w' = statusBar w
      \<and> lastUpdate w' = lastUpdate w \<and> console w' = console w
      \<and> commitMessage (settings w') = commitMessage (settings w)
      \<and> commitDateFormat (settings w') = commitDateFormat (settings w)
      \<and> autoPullOnBoot (settings w') = autoPullOnBoot (settings w)
      \<and> autoPush (settings w') = autoPush (settings w)
      \<and> disablePopups (settings w') = disablePopups (settings w)
      \<and> currentBranch (settings w') = currentBranch (settings w)
      \<and> remote (settings w') = remote (settings w))"

definition sameOutcome :: "'a promise \<Rightarrow> 'a promise \<Rightarrow> bool" where
  "sameOutcome p p' = (fst p' = fst p \<and> sameBesidesTimers (snd p) (snd p'))"

text \<open>No active timer has a handle beyond the last one handed out.\<close>

definition handlesUsed :: "ObsidianGit \<Rightarrow> bool" where
  "handlesUsed w = list_all (\<lambda>t. fst t \<le> lastHandle w) (timers w)"

text \<open>
  From \<open>w\<close> to \<open>w'\<close> the window has only handed out new handles: every timer of \<open>w'\<close> is
  one of \<open>w\<close> or has a handle handed out in between.
\<close>

definition handlesGrow :: "ObsidianGit \<Rightarrow> ObsidianGit \<Rightarrow> bool" where
  "handlesGrow w w' =
     (lastHandle w \<le> lastHandle w'
      \<and> list_all (\<lambda>t. t \<in> set (timers w) \<or> (lastHandle w < fst t \<and> fst t \<le> lastHandle w'))
          (timers w'))"



text \<open>
  \<open>replacedFirstOnly ph text s s'\<close>: the string \<open>s'\<close> is \<open>s\<close> with the first occurrence of
  the placeholder \<open>ph\<close>, and nothing else, replaced (by a text that may depend on what
  stands before and after the occurrence); a string without the placeholder is unchanged.
\<close>

definition replacedFirstOnly ::
  "string \<Rightarrow> (string \<Rightarrow> string \<Rightarrow> string) \<Rightarrow> string \<Rightarrow> string \<Rightarrow> bool" where
  "replacedFirstOnly ph text s s' =
     (if sublist ph s
      then (\<exists>p q. s = p @ ph @ q \<and> \<not> sublist ph (p @ butlast ph) \<and> s' = p @ text p q @ q)
      else s' = s)"

section \<open>Example inputs\<close>

text \<open>
  The plugin object before \<open>onload\<close>; the settings of \<^verbatim>\<open>new ObsidianGitSettings()\<close> with a
  branch and a remote as \<open>onload\<close> resolves them; and the plugin as \<open>onload\<close> leaves it with
  these settings: idle, never synchronised, the status-bar refresh of 1000 ms its only
  timer.
\<close>

definition newPlugin :: ObsidianGit where
  "newPlugin =
     \<lparr>settings = ObsidianGitSettings_new,
      statusBar = \<lparr>statusBarEl = [], isDisplayingMessage = False\<rparr>,
      state = Idle,
      intervalID = None,
      lastUpdate = None,
      timers = [],
      lastHandle = 0,
      registered = [],
      notices = [],
      console = [],
      saved = [],
      calls = []\<rparr>"

definition defaultSettings :: ObsidianGitSettings where
  "defaultSettings =
     \<lparr>commitMessage = ''vault backup: {{date}}'',
      commitDateFormat = ''YYYY-MM-DD HH:mm:ss'',
      autoSaveInterval = Num 0,
      autoPullOnBoot = False,
      autoPush = True,
      disablePopups = False,
      currentBranch = ''master'',
      remote = ''origin''\<rparr>"

definition loadedPlugin :: ObsidianGit where
  "loadedPlugin =
     \<lparr>settings = defaultSettings,
      statusBar = \<lparr>statusBarEl = ''git: ready'', isDisplayingMessage = False\<rparr>,
      state = Idle,
      intervalID = None,
      lastUpdate = None,
      timers = [(1, Interval RefreshBar (Num 1000))],
      lastHandle = 1,
      registered = [1],
      notices = [],
      console = [],
      saved = [],
      calls = []\<rparr>"


text \<open>
  A git client that reports the given changed files and answers the other calls as told;
  its branch is \<^verbatim>\<open>master\<close> and its remote \<^verbatim>\<open>origin\<close>.
\<close>

definition scriptedGit ::
  "string list \<Rightarrow> string + unit \<Rightarrow> string + unit \<Rightarrow> string + unit \<Rightarrow> string + string list
     \<Rightarrow> SimpleGit" where
  "scriptedGit files addAnswer commitAnswer pushAnswer pullAnswer =
     \<lparr>git_status = (\<lambda>h. Inr files),
      git_add = (\<lambda>h. addAnswer),
      git_commit = (\<lambda>h. commitAnswer),
      git_push = (\<lambda>h. pushAnswer),
      git_pull = (\<lambda>h. pullAnswer),
      git_branch = Inr ''master'',
      git_remote = Inr (Some (''origin'' @ [CHR 0x0A]))\<rparr>"

abbreviation workingGit :: "string list \<Rightarrow> SimpleGit" where
  "workingGit files \<equiv> scriptedGit files (Inr ()) (Inr ()) (Inr ()) (Inr [])"

text \<open>
  A window with a frozen clock and no saved settings, for the examples. Its \<open>Number\<close>
  reads the strings of decimal digits (the empty string as 0, as the language does) and is
  \<open>NaN\<close> on every other string; its product is the exact one, which is the product of
  doubles on the small whole numbers of the examples.
\<close>

definition digitValue :: "char \<Rightarrow> nat option" where
  "digitValue c = map_of (zip ''0123456789'' [0, 1, 2, 3, 4, 5, 6, 7, 8, 9]) c"

definition decimalNumber :: "string \<Rightarrow> number" where
  "decimalNumber s =
     (case those (map digitValue s) of
        None \<Rightarrow> NaN
      | Some ds \<Rightarrow> Num (real (foldl (\<lambda>a d. 10 * a + d) 0 ds)))"

definition frozenWindow :: window where
  "frozenWindow =
     \<lparr>dateNow = (\<lambda>h. 1704067200000),
      momentFormat = (\<lambda>now f. ''2024-01-01 00:00:00''),
      momentFromNow = (\<lambda>now t. ''a few seconds ago''),
      Number = decimalNumber,
      String_of_number = (\<lambda>n. case n of Num r \<Rightarrow> String_of_nat (nat \<lfloor>r\<rfloor>) | _ \<Rightarrow> ''NaN''),
      times60000 = (\<lambda>n. case n of Num r \<Rightarrow> Num (r * 60000) | _ \<Rightarrow> n),
      loadData = None\<rparr>"


section \<open>Basic facts\<close>


subsection \<open>What the display functions leave alone\<close>

lemma StatusBar_displayMessage_fields [simp]:
  "calls (StatusBar_displayMessage m t w) = calls w"
  "settings (StatusBar_displayMessage m t w) = settings w"
  "state (StatusBar_displayMessage m t w) = state w"
  "lastUpdate (StatusBar_displayMessage m t w) = lastUpdate w"
  "intervalID (StatusBar_displayMessage m t w) = intervalID w"
  "notices (StatusBar_displayMessage m t w) = notices w"
  "isDisplayingMessage (statusBar (StatusBar_displayMessage m t w))"
  "statusBarEl (statusBar (StatusBar_displayMessage m t w)) = ''git: '' @ take 100 m"
  by (simp_all add: StatusBar_displayMessage_def Let_def setTimeout_def setText_def)

lemma refreshStatusBar_fields [simp]:
  "calls (refreshStatusBar E w) = calls w"
  "settings (refreshStatusBar E w) = settings w"
  "state (refreshStatusBar E w) = state w"
  "lastUpdate (refreshStatusBar E w) = lastUpdate w"
  "intervalID (refreshStatusBar E w) = intervalID w"
  "timers (refreshStatusBar E w) = timers w"
  "lastHandle (refreshStatusBar E w) = lastHandle w"
  "notices (refreshStatusBar E w) = notices w"
  by (simp_all add: refreshStatusBar_def)

lemma setState_fields [simp]:
  "calls (setState E st w) = calls w"
  "settings (setState E st w) = settings w"
  "state (setState E st w) = st"
  "lastUpdate (setState E st w) = lastUpdate w"
  "intervalID (setState E st w) = intervalID w"
  "timers (setState E st w) = timers w"
  "lastHandle (setState E st w) = lastHandle w"
  "notices (setState E st w) = notices w"
  by (simp_all add: setState_def)

lemma displayMessage_fields [simp]:
  "calls (displayMessage m t w) = calls w"
  "settings (displayMessage m t w) = settings w"
  "state (displayMessage m t w) = state w"
  "lastUpdate (displayMessage m t w) = lastUpdate w"
  "intervalID (displayMessage m t w) = intervalID w"
  by (simp_all add: displayMessage_def Let_def Notice_def)

lemma displayError_fields [simp]:
  "calls (displayError m t w) = calls w"
  "settings (displayError m t w) = settings w"
  "state (displayError m t w) = state w"
  "lastUpdate (displayError m t w) = lastUpdate w"
  "intervalID (displayError m t w) = intervalID w"
  by (simp_all add: displayError_def Notice_def)

section \<open>The interval field rejects what is not a number\<close>

text \<open>
  Claim C9. When \<^verbatim>\<open>Number(value)\<close> is \<open>NaN\<close>, the \<open>onChange\<close> handler of the interval
  field shows the notice "Please specify a valid number." and changes nothing else: the
  interval keeps its prior value, nothing is saved and no timer is set or cleared.
\<close>

theorem invalid_interval_rejected:
  "isNaN (Number E v) \<Longrightarrow>
     onChange_autoSaveInterval E v w = w\<lparr>notices := notices w @ [''Please specify a valid number.'']\<rparr>"
  by (simp add: onChange_autoSaveInterval_def Notice_def)

lemma decimalNumber_abc: "decimalNumber ''abc'' = NaN"
  by (simp add: decimalNumber_def digitValue_def)

lemma decimalNumber_5: "decimalNumber ''5'' = Num 5"
  by (simp add: decimalNumber_def digitValue_def)

lemma decimalNumber_0: "decimalNumber ''0'' = Num 0"
  by (simp add: decimalNumber_def digitValue_def)

text \<open>The input \<^verbatim>\<open>abc\<close> on the freshly loaded plugin: the interval stays 0.\<close>

theorem invalid_interval_rejected_witness:
  "isNaN (Number frozenWindow ''abc'') \<and>
   onChange_autoSaveInterval frozenWindow ''abc'' loadedPlugin
     = loadedPlugin\<lparr>notices := [''Please specify a valid number.'']\<rparr> \<and>
   autoSaveInterval (settings (onChange_autoSaveInterval frozenWindow ''abc'' loadedPlugin)) = Num 0 \<and>
   timers (onChange_autoSaveInterval frozenWindow ''abc'' loadedPlugin) = timers loadedPlugin"
proof -
  have nan: "isNaN (Number frozenWindow ''abc'')"
    by (simp add: frozenWindow_def decimalNumber_abc)
  from invalid_interval_rejected [OF nan, of loadedPlugin] nan show ?thesis
    by (simp add: loadedPlugin_def defaultSettings_def)
qed

section \<open>The commit message\<close>

lemma sublist_butlast_self: "pat \<noteq> [] \<Longrightarrow> \<not> sublist pat (butlast pat)"
proof
  assume ne: "pat \<noteq> []" and "sublist pat (butlast pat)"
  then obtain ps ss where "butlast pat = ps @ pat @ ss" by (auto simp: sublist_def)
  then have "length (butlast pat) = length ps + length pat + length ss"
    by (metis length_append add.assoc)
  with ne show False by (cases pat rule: rev_cases) auto
qed

lemma indexOf_None_iff: "indexOf s pat = None \<longleftrightarrow> \<not> sublist pat s"
  by (induction s) (auto simp: sublist_Cons_right)

lemma includes_str_iff: "includes_str s pat \<longleftrightarrow> sublist pat s"
  by (simp add: includes_str_def indexOf_None_iff)

lemma indexOf_Some_first:
  assumes "pat \<noteq> []" and "indexOf s pat = Some i"
  shows "s = take i s @ pat @ drop (i + length pat) s \<and> \<not> sublist pat (take i s @ butlast pat)"
  using assms(2)
proof (induction s arbitrary: i)
  case Nil
  with assms(1) show ?case by simp
next
  case (Cons c cs)
  show ?case
  proof (cases "prefix pat (c # cs)")
    case True
    then have i: "i = 0" using Cons.prems by simp
    from True obtain q where q: "c # cs = pat @ q" by (auto simp: prefix_def)
    show ?thesis using i q sublist_butlast_self [OF assms(1)] by simp
  next
    case False
    then obtain j where j: "indexOf cs pat = Some j" and i: "i = Suc j"
      using Cons.prems by (auto split: if_splits)
    from Cons.IH [OF j] have eq: "cs = take j cs @ pat @ drop (j + length pat) cs"
      and no: "\<not> sublist pat (take j cs @ butlast pat)" by auto
    have "\<not> prefix pat (c # take j cs @ butlast pat)"
    proof
      assume p: "prefix pat (c # take j cs @ butlast pat)"
      have "prefix (c # take j cs @ butlast pat) (c # take j cs @ pat @ drop (j + length pat) cs)"
        using assms(1) by (simp add: prefix_def) (metis append_butlast_last_id append_assoc)
      then have "prefix (c # take j cs @ butlast pat) (c # cs)" using eq by simp
      with p have "prefix pat (c # cs)" by (rule prefix_order.trans)
      with False show False by simp
    qed
    with no have "\<not> sublist pat (c # take j cs @ butlast pat)"
      by (simp add: sublist_Cons_right)
    then show ?thesis using i eq by simp
  qed
qed

lemma replace_str_first_only:
  assumes "pat \<noteq> []"
  shows "replacedFirstOnly pat (\<lambda>p q. getSubstitution pat p q repl) s (replace_str s pat repl)"
proof (cases "indexOf s pat")
  case None
  then have "\<not> sublist pat s" by (simp add: indexOf_None_iff)
  with None show ?thesis
    by (simp add: replacedFirstOnly_def replace_str_def)
next
  case (Some i)
  then have sub: "sublist pat s" using indexOf_None_iff [of s pat] by simp
  from indexOf_Some_first [OF assms Some]
  have eq: "s = take i s @ pat @ drop (i + length pat) s"
    and first: "\<not> sublist pat (take i s @ butlast pat)" by auto
  have "replace_str s pat repl =
          take i s @ getSubstitution pat (take i s) (drop (i + length pat) s) repl
            @ drop (i + length pat) s"
    using Some by (simp add: replace_str_def)
  with eq first have
    "\<exists>p q. s = p @ pat @ q \<and> \<not> sublist pat (p @ butlast pat)
        \<and> replace_str s pat repl = p @ getSubstitution pat p q repl @ q"
    by blast
  with sub show ?thesis by (simp add: replacedFirstOnly_def)
qed

lemma digit_not_dollar: "d < 10 \<Longrightarrow> digit d \<noteq> CHR ''$''"
proof -
  assume "d < 10"
  then have "digit d \<in> set ''0123456789''" unfolding digit_def by (intro nth_mem) simp
  then show ?thesis by auto
qed

lemma String_of_nat_no_dollar: "CHR ''$'' \<notin> set (String_of_nat n)"
proof (induction n rule: String_of_nat.induct)
  case (1 n)
  show ?case
  proof (cases "n < 10")
    case True
    then show ?thesis using digit_not_dollar [of n] by (subst String_of_nat.simps) auto
  next
    case False
    have "n mod 10 < 10" by simp
    then have "digit (n mod 10) \<noteq> CHR ''$''" by (rule digit_not_dollar)
    with False "1.IH" show ?thesis by (subst String_of_nat.simps) auto
  qed
qed

lemma getSubstitution_plain:
  "CHR ''$'' \<notin> set s \<Longrightarrow> getSubstitution m b a s = s"
  by (induction m b a s rule: getSubstitution.induct) auto

lemma replace_str_number_first_only:
  assumes "pat \<noteq> []"
  shows "replacedFirstOnly pat (\<lambda>p q. String_of_nat n) s (replace_str s pat (String_of_nat n))"
  using replace_str_first_only [OF assms, of "String_of_nat n" s]
  by (simp add: getSubstitution_plain String_of_nat_no_dollar)

text \<open>
  Claim C7. \<open>formatCommitMessage\<close> replaces the first occurrence of \<^verbatim>\<open>{{numFiles}}\<close> by the
  number of changed files and then the first occurrence of \<^verbatim>\<open>{{date}}\<close> by the formatted
  date, each at most once: whatever stands before and after the replaced occurrence, later
  occurrences of the same placeholder and unrecognized placeholders included, is copied
  as it is, and a template with neither placeholder is returned unchanged. (The status
  query for \<^verbatim>\<open>{{numFiles}}\<close> is only made, and so only has to succeed, when the template
  has that placeholder.)
\<close>

theorem formatCommitMessage_first_occurrence_only:
  assumes "\<not> sublist ''{{numFiles}}'' template \<or> git_status G (calls w) = Inr files"
  shows "\<exists>t1 r w'.
           formatCommitMessage G E template w = (Inr r, w')
         \<and> replacedFirstOnly ''{{numFiles}}'' (\<lambda>p q. String_of_nat (length files)) template t1
         \<and> replacedFirstOnly ''{{date}}''
             (\<lambda>p q. getSubstitution ''{{date}}'' p q
                      (momentFormat E (dateNow E (calls w')) (commitDateFormat (settings w))))
             t1 r
         \<and> (\<not> sublist ''{{numFiles}}'' template \<and> \<not> sublist ''{{date}}'' template \<longrightarrow> r = template)"
proof (cases "sublist ''{{numFiles}}'' template")
  case True
  with assms have st: "git_status G (calls w) = Inr files" by simp
  let ?t1 = "replace_str template ''{{numFiles}}'' (String_of_nat (length files))"
  let ?w' = "w\<lparr>calls := calls w @ [Git_status]\<rparr>"
  let ?r = "replace_str ?t1 ''{{date}}''
              (momentFormat E (dateNow E (calls ?w')) (commitDateFormat (settings w)))"
  have "formatCommitMessage G E template w = (Inr ?r, ?w')"
    using True st by (simp add: formatCommitMessage_def includes_str_iff andThen_def status_def)
  moreover have "replacedFirstOnly ''{{numFiles}}'' (\<lambda>p q. String_of_nat (length files)) template ?t1"
    by (rule replace_str_number_first_only) simp
  moreover have "replacedFirstOnly ''{{date}}''
             (\<lambda>p q. getSubstitution ''{{date}}'' p q
                      (momentFormat E (dateNow E (calls ?w')) (commitDateFormat (settings w))))
             ?t1 ?r"
    by (rule replace_str_first_only) simp
  ultimately show ?thesis using True by blast
next
  case False
  let ?r = "replace_str template ''{{date}}''
              (momentFormat E (dateNow E (calls w)) (commitDateFormat (settings w)))"
  have "formatCommitMessage G E template w = (Inr ?r, w)"
    using False by (simp add: formatCommitMessage_def includes_str_iff andThen_def)
  moreover have "replacedFirstOnly ''{{numFiles}}'' (\<lambda>p q. String_of_nat (length files)) template template"
    using False by (simp add: replacedFirstOnly_def)
  moreover have "replacedFirstOnly ''{{date}}''
             (\<lambda>p q. getSubstitution ''{{date}}'' p q
                      (momentFormat E (dateNow E (calls w)) (commitDateFormat (settings w))))
             template ?r"
    by (rule replace_str_first_only) simp
  moreover have "\<not> sublist ''{{date}}'' template \<longrightarrow> ?r = template"
  proof
    assume "\<not> sublist ''{{date}}'' template"
    then have "indexOf template ''{{date}}'' = None" by (simp add: indexOf_None_iff)
    then show "?r = template" by (simp add: replace_str_def)
  qed
  ultimately show ?thesis by blast
qed

text \<open>
  Three changed files and a template with both placeholders twice and an unknown one: only
  the first of each is replaced.
\<close>

theorem formatCommitMessage_first_occurrence_only_witness:
  "git_status (workingGit [''a.md'', ''b.md'', ''c.md''])
     (calls loadedPlugin) = Inr [''a.md'', ''b.md'', ''c.md'']
   \<and> (\<exists>t1 r w'.
         formatCommitMessage
           (workingGit [''a.md'', ''b.md'', ''c.md''])
           frozenWindow ''{{numFiles}} of {{numFiles}} {{foo}} {{date}} {{date}}'' loadedPlugin
           = (Inr r, w')
       \<and> replacedFirstOnly ''{{numFiles}}''
           (\<lambda>p q. String_of_nat (length [''a.md'', ''b.md'', ''c.md'']))
           ''{{numFiles}} of {{numFiles}} {{foo}} {{date}} {{date}}'' t1
       \<and> replacedFirstOnly ''{{date}}''
           (\<lambda>p q. getSubstitution ''{{date}}'' p q
                    (momentFormat frozenWindow (dateNow frozenWindow (calls w'))
                       (commitDateFormat (settings loadedPlugin))))
           t1 r
       \<and> (\<not> sublist ''{{numFiles}}'' ''{{numFiles}} of {{numFiles}} {{foo}} {{date}} {{date}}''
            \<and> \<not> sublist ''{{date}}'' ''{{numFiles}} of {{numFiles}} {{foo}} {{date}} {{date}}''
          \<longrightarrow> r = ''{{numFiles}} of {{numFiles}} {{foo}} {{date}} {{date}}''))
   \<and> fst (formatCommitMessage
           (workingGit [''a.md'', ''b.md'', ''c.md''])
           frozenWindow ''{{numFiles}} of {{numFiles}} {{foo}} {{date}} {{date}}'' loadedPlugin)
       = Inr ''3 of {{numFiles}} {{foo}} 2024-01-01 00:00:00 {{date}}''"
proof -
  let ?G = "workingGit [''a.md'', ''b.md'', ''c.md'']"
  have st: "git_status ?G (calls loadedPlugin) = Inr [''a.md'', ''b.md'', ''c.md'']"
    by (simp add: scriptedGit_def)
  have ev: "fst (formatCommitMessage ?G frozenWindow
                   ''{{numFiles}} of {{numFiles}} {{foo}} {{date}} {{date}}'' loadedPlugin)
              = Inr ''3 of {{numFiles}} {{foo}} 2024-01-01 00:00:00 {{date}}''"
    by (simp add: formatCommitMessage_def includes_str_def andThen_def status_def
        scriptedGit_def replace_str_def String_of_nat.simps digit_def frozenWindow_def)
  from formatCommitMessage_first_occurrence_only
         [of "''{{numFiles}} of {{numFiles}} {{foo}} {{date}} {{date}}''" ?G loadedPlugin
             "[''a.md'', ''b.md'', ''c.md'']" frozenWindow, OF disjI2 [OF st]]
  show ?thesis using st ev by blast
qed

section \<open>The time of the last synchronisation\<close>

text \<open>
  Claim C6. \<open>push\<close> and \<open>pull\<close> assign \<open>lastUpdate\<close> the current time when the git call
  succeeds, and leave it as it was (and reject) when the call fails; \<open>lastUpdate\<close> is what
  the status bar shows in the idle state ("last update ... ago").
\<close>

theorem lastUpdate_recorded_on_success_only:
  "(git_push G (calls w) = Inr u \<longrightarrow>
      fst (push G E w) = Inr ()
      \<and> lastUpdate (snd (push G E w)) = Some (dateNow E (calls (snd (push G E w)))))
   \<and> (git_push G (calls w) = Inl err \<longrightarrow>
      fst (push G E w) = Inl err \<and> lastUpdate (snd (push G E w)) = lastUpdate w)
   \<and> (git_pull G (calls w) = Inr files \<longrightarrow>
      fst (pull G E w) = Inr (length files)
      \<and> lastUpdate (snd (pull G E w)) = Some (dateNow E (calls (snd (pull G E w)))))
   \<and> (git_pull G (calls w) = Inl err \<longrightarrow>
      fst (pull G E w) = Inl err \<and> lastUpdate (snd (pull G E w)) = lastUpdate w)
   \<and> (state w = Idle \<and> \<not> isDisplayingMessage (statusBar w) \<and> defined (lastUpdate w) \<longrightarrow>
      statusBarEl (statusBar (refreshStatusBar E w))
        = ''git: last update '' @ momentFromNow E (dateNow E (calls w)) (the (lastUpdate w)) @ ''..'')"
  by (simp add: push_def pull_def Let_def refreshStatusBar_def displayState_def
      displayFromNow_def setText_def)

text \<open>A push and a pull that succeed, a push and a pull that fail, and the idle display.\<close>

theorem lastUpdate_recorded_on_success_only_witness:
  "git_push (scriptedGit [] (Inr ()) (Inr ()) (Inr ()) (Inr [''x.md''])) (calls loadedPlugin) = Inr ()
   \<and> fst (push (scriptedGit [] (Inr ()) (Inr ()) (Inr ()) (Inr [''x.md''])) frozenWindow loadedPlugin)
       = Inr ()
   \<and> lastUpdate (snd (push (scriptedGit [] (Inr ()) (Inr ()) (Inr ()) (Inr [''x.md'']))
                         frozenWindow loadedPlugin)) = Some 1704067200000
   \<and> git_push (scriptedGit [] (Inr ()) (Inr ()) (Inl ''network error'') (Inl ''no remote''))
        (calls loadedPlugin) = Inl ''network error''
   \<and> fst (push (scriptedGit [] (Inr ()) (Inr ()) (Inl ''network error'') (Inl ''no remote''))
            frozenWindow loadedPlugin) = Inl ''network error''
   \<and> lastUpdate (snd (push (scriptedGit [] (Inr ()) (Inr ()) (Inl ''network error'') (Inl ''no remote''))
                         frozenWindow loadedPlugin)) = None
   \<and> git_pull (scriptedGit [] (Inr ()) (Inr ()) (Inr ()) (Inr [''x.md''])) (calls loadedPlugin)
       = Inr [''x.md'']
   \<and> fst (pull (scriptedGit [] (Inr ()) (Inr ()) (Inr ()) (Inr [''x.md''])) frozenWindow loadedPlugin)
       = Inr 1
   \<and> lastUpdate (snd (pull (scriptedGit [] (Inr ()) (Inr ()) (Inr ()) (Inr [''x.md'']))
                         frozenWindow loadedPlugin)) = Some 1704067200000
   \<and> git_pull (scriptedGit [] (Inr ()) (Inr ()) (Inl ''network error'') (Inl ''no remote''))
        (calls loadedPlugin) = Inl ''no remote''
   \<and> fst (pull (scriptedGit [] (Inr ()) (Inr ()) (Inl ''network error'') (Inl ''no remote''))
            frozenWindow loadedPlugin) = Inl ''no remote''
   \<and> lastUpdate (snd (pull (scriptedGit [] (Inr ()) (Inr ()) (Inl ''network error'') (Inl ''no remote''))
                         frozenWindow loadedPlugin)) = None
   \<and> state (loadedPlugin\<lparr>lastUpdate := Some 1704067200000\<rparr>) = Idle
   \<and> \<not> isDisplayingMessage (statusBar (loadedPlugin\<lparr>lastUpdate := Some 1704067200000\<rparr>))
   \<and> defined (lastUpdate (loadedPlugin\<lparr>lastUpdate := Some 1704067200000\<rparr>))
   \<and> statusBarEl (statusBar (refreshStatusBar frozenWindow
                                (loadedPlugin\<lparr>lastUpdate := Some 1704067200000\<rparr>)))
       = ''git: last update a few seconds ago..''"
proof -
  let ?ok = "scriptedGit [] (Inr ()) (Inr ()) (Inr ()) (Inr [''x.md''])"
  let ?bad = "scriptedGit [] (Inr ()) (Inr ()) (Inl ''network error'') (Inl ''no remote'')"
  let ?synced = "loadedPlugin\<lparr>lastUpdate := Some 1704067200000\<rparr>"
  have a: "git_push ?ok (calls loadedPlugin) = Inr ()"
    and b: "git_push ?bad (calls loadedPlugin) = Inl ''network error''"
    and c: "git_pull ?ok (calls loadedPlugin) = Inr [''x.md'']"
    and d: "git_pull ?bad (calls loadedPlugin) = Inl ''no remote''"
    by (simp_all add: scriptedGit_def)
  have e: "state ?synced = Idle" "\<not> isDisplayingMessage (statusBar ?synced)"
    "defined (lastUpdate ?synced)"
    by (simp_all add: loadedPlugin_def)
  have now: "\<And>h. dateNow frozenWindow h = 1704067200000"
    "\<And>n t. momentFromNow frozenWindow n t = ''a few seconds ago''"
    by (simp_all add: frozenWindow_def)
  have none: "lastUpdate loadedPlugin = None" by (simp add: loadedPlugin_def)
  note ok = lastUpdate_recorded_on_success_only
              [of ?ok loadedPlugin "()" frozenWindow "''x''" "[''x.md'']"]
  note bad = lastUpdate_recorded_on_success_only
              [of ?bad loadedPlugin "()" frozenWindow "''network error''" "[]"]
  note bad2 = lastUpdate_recorded_on_success_only
              [of ?bad loadedPlugin "()" frozenWindow "''no remote''" "[]"]
  note disp = lastUpdate_recorded_on_success_only
              [of ?ok ?synced "()" frozenWindow "''x''" "[]"]
  show ?thesis
    using ok bad bad2 disp a b c d e now none by simp
qed

section \<open>One backup cycle\<close>

lemma getFilesChanged_eq:
  "getFilesChanged G E w
     = (git_status G (calls w), (setState E Status w)\<lparr>calls := calls w @ [Git_status]\<rparr>)"
  by (simp add: getFilesChanged_def status_def)

lemma push_calls:
  "calls (snd (push G E w))
     = calls w @ [Git_push (remote (settings w)) (currentBranch (settings w))]"
  by (simp add: push_def Let_def split: sum.split)

lemma push_settings: "settings (snd (push G E w)) = settings w"
  by (simp add: push_def Let_def split: sum.split)

lemma add_resolved:
  assumes "add G E w = (Inr (), w2)"
  shows "calls w2 = calls w @ [Git_add ''./*'']" and "settings w2 = settings w"
  using assms by (auto simp: add_def Let_def split: sum.splits)

lemma formatCommitMessage_resolved:
  assumes "formatCommitMessage G E t w = (Inr m, w1)"
  shows "(calls w1 = calls w \<or> calls w1 = calls w @ [Git_status]) \<and> settings w1 = settings w"
  using assms
  by (auto simp: formatCommitMessage_def andThen_def status_def split: if_splits sum.splits)

lemma commit_resolved:
  assumes "commit G E w = (Inr (), w3)"
  shows "\<exists>m. calls w3 = calls w @ [Git_commit m] \<or> calls w3 = calls w @ [Git_status, Git_commit m]"
    and "settings w3 = settings w"
proof -
  obtain r w1 where f: "formatCommitMessage G E (commitMessage (settings w)) (setState E Commit w) = (r, w1)"
    by (cases "formatCommitMessage G E (commitMessage (settings w)) (setState E Commit w)")
  with assms obtain m where r: "r = Inr m" and w3: "w3 = w1\<lparr>calls := calls w1 @ [Git_commit m]\<rparr>"
    by (cases r) (auto simp: commit_def andThen_def)
  from formatCommitMessage_resolved [OF f [unfolded r]]
  have "(calls w1 = calls w \<or> calls w1 = calls w @ [Git_status])" and s: "settings w1 = settings w"
    by auto
  then show "\<exists>m. calls w3 = calls w @ [Git_commit m] \<or> calls w3 = calls w @ [Git_status, Git_commit m]"
    using w3 by auto
  show "settings w3 = settings w" using w3 s by simp
qed

lemma createBackup_after_commit:
  assumes "getFilesChanged G E w = (Inr files, w1)" and "files \<noteq> []"
    and "add G E w1 = (Inr (), w2)" and "commit G E w2 = (Inr (), w3)"
  shows "createBackup G E w =
           andThen
             (let w4 = displayMessage (''Committed '' @ String_of_nat (length files) @ '' files'') None w3
              in if autoPush (settings w4)
                 then andThen (push G E w4)
                        (\<lambda>u w5. (Inr (),
                           displayMessage
                             (''Pushed '' @ String_of_nat (length files) @ '' files to remote'')
                             None w5))
                 else (Inr (), w4))
             (\<lambda>u w6. (Inr (), setState E Idle w6))"
  using assms by (simp add: createBackup_def andThen_def Let_def)

lemma add_calls: "calls (snd (add G E w)) = calls w @ [Git_add ''./*'']"
  by (simp add: add_def Let_def split: sum.split)

lemma add_settings: "settings (snd (add G E w)) = settings w"
  by (simp add: add_def Let_def split: sum.split)

lemma commit_calls:
  "\<exists>cs. calls (snd (commit G E w)) = calls w @ cs
        \<and> filter is_add cs = [] \<and> filter is_push cs = []
        \<and> length (filter is_commit cs) \<le> 1
        \<and> (\<not> isl (fst (commit G E w)) \<longrightarrow> length (filter is_commit cs) = 1)"
  by (auto simp: commit_def formatCommitMessage_def andThen_def status_def
      split: sum.split)

lemma createBackup_add_rejected:
  assumes "getFilesChanged G E w = (Inr files, w1)" and "files \<noteq> []"
    and "add G E w1 = (Inl e, w2)"
  shows "createBackup G E w = (Inl e, w2)"
  using assms by (simp add: createBackup_def andThen_def)

lemma createBackup_commit_rejected:
  assumes "getFilesChanged G E w = (Inr files, w1)" and "files \<noteq> []"
    and "add G E w1 = (Inr (), w2)" and "commit G E w2 = (Inl e, w3)"
  shows "createBackup G E w = (Inl e, w3)"
  using assms by (simp add: createBackup_def andThen_def)

text \<open>
  Claim C1, as amended. When the status query reports a non-empty list of changed files,
  one run of \<open>createBackup\<close> makes exactly one add call on the git client. When the promise
  of \<open>add\<close> is rejected, no commit call and no push call is made. When \<open>add\<close> resolves and
  the promise of \<open>commit\<close> is rejected, at most one commit call and no push call is made.
  When both resolve, exactly one commit call is made, and exactly one push call if
  \<open>autoPush\<close> is set and none if it is not (whether or not the push succeeds).
\<close>

theorem createBackup_add_commit_push_once:
  assumes "getFilesChanged G E w = (Inr files, w1)" and "files \<noteq> []"
    and "add G E w1 = (a, w2)" and "commit G E w2 = (c, w3)"
  shows "length (filter is_add (callsSince w (snd (createBackup G E w)))) = 1
       \<and> (if isl a
          then length (filter is_commit (callsSince w (snd (createBackup G E w)))) = 0
             \<and> length (filter is_push (callsSince w (snd (createBackup G E w)))) = 0
          else if isl c
          then length (filter is_commit (callsSince w (snd (createBackup G E w)))) \<le> 1
             \<and> length (filter is_push (callsSince w (snd (createBackup G E w)))) = 0
          else length (filter is_commit (callsSince w (snd (createBackup G E w)))) = 1
             \<and> length (filter is_push (callsSince w (snd (createBackup G E w))))
                 = (if autoPush (settings w) then 1 else 0))"
proof -
  have c1: "calls w1 = calls w @ [Git_status]" and s1: "settings w1 = settings w"
    using assms(1) by (auto simp: getFilesChanged_eq)
  have c2: "calls w2 = calls w @ [Git_status, Git_add ''./*'']"
    using add_calls [of G E w1] assms(3) c1 by simp
  have s2: "settings w2 = settings w"
    using add_settings [of G E w1] assms(3) s1 by simp
  show ?thesis
  proof (cases a)
    case (Inl e)
    with assms(3) have "add G E w1 = (Inl e, w2)" by simp
    from createBackup_add_rejected [OF assms(1,2) this] c2 Inl show ?thesis
      by (simp add: callsSince_def)
  next
    case (Inr u)
    then have a: "add G E w1 = (Inr (), w2)" using assms(3) by simp
    from commit_calls [of G E w2] assms(4) obtain cs where
      cs: "calls w3 = calls w2 @ cs" "filter is_add cs = []" "filter is_push cs = []"
          "length (filter is_commit cs) \<le> 1"
          "\<not> isl c \<longrightarrow> length (filter is_commit cs) = 1"
      by auto
    show ?thesis
    proof (cases c)
      case (Inl e)
      with assms(4) have "commit G E w2 = (Inl e, w3)" by simp
      from createBackup_commit_rejected [OF assms(1,2) a this] c2 cs Inl Inr show ?thesis
        by (simp add: callsSince_def)
    next
      case cr: (Inr v)
      then have k: "commit G E w2 = (Inr (), w3)" using assms(4) by simp
      from commit_resolved(2) [OF k] s2 have s3: "settings w3 = settings w" by simp
      from cs cr have one: "length (filter is_commit cs) = 1" by simp
      let ?w4 = "displayMessage (''Committed '' @ String_of_nat (length files) @ '' files'') None w3"
      have s4: "settings ?w4 = settings w" using s3 by simp
      have c4: "calls ?w4 = calls w @ [Git_status, Git_add ''./*''] @ cs" using cs(1) c2 by simp
      note cb = createBackup_after_commit [OF assms(1,2) a k]
      show ?thesis
      proof (cases "autoPush (settings w)")
        case False
        then have "calls (snd (createBackup G E w)) = calls w @ [Git_status, Git_add ''./*''] @ cs"
          using cb s4 c4 by (simp add: andThen_def Let_def)
        then show ?thesis using cs one False Inr cr by (simp add: callsSince_def)
      next
        case True
        obtain r w5 where p: "push G E ?w4 = (r, w5)" by (cases "push G E ?w4")
        have "calls w5 = calls ?w4 @ [Git_push (remote (settings ?w4)) (currentBranch (settings ?w4))]"
          using push_calls [of G E ?w4] p by simp
        moreover have "calls (snd (createBackup G E w)) = calls w5"
          using cb s4 True p by (cases r) (simp_all add: andThen_def Let_def)
        ultimately have "calls (snd (createBackup G E w))
            = calls w @ [Git_status, Git_add ''./*''] @ cs
                @ [Git_push (remote (settings ?w4)) (currentBranch (settings ?w4))]"
          using c4 by simp
        then show ?thesis using cs one True Inr cr by (simp add: callsSince_def)
      qed
    qed
  qed
qed

lemmas run_defs =
  createBackup_def pushCommand_def pullChangesFromRemote_def getFilesChanged_def status_def
  add_def commit_def push_def pull_def formatCommitMessage_def andThen_def
  setState_def refreshStatusBar_def displayState_def displayFromNow_def setText_def
  displayMessage_def displayError_def StatusBar_displayMessage_def setTimeout_def Notice_def
  includes_str_def replace_str_def toLowerCase_def lowerChar_def
  String_of_nat.simps digit_def Let_def
  scriptedGit_def frozenWindow_def loadedPlugin_def defaultSettings_def

subsection \<open>Example runs\<close>

lemma run_two_files:
  "createBackup (workingGit [''a.md'', ''b.md''])
     frozenWindow loadedPlugin
   = (Inr (),
      loadedPlugin
        \<lparr>statusBar := \<lparr>statusBarEl = ''git: pushed 2 files to remote'', isDisplayingMessage = True\<rparr>,
         lastUpdate := Some 1704067200000,
         timers := [(1, Interval RefreshBar (Num 1000)), (2, Timeout ResetMessage (Num 4000)),
                    (3, Timeout ResetMessage (Num 4000))],
         lastHandle := 3,
         notices := [''Committed 2 files'', ''Pushed 2 files to remote''],
         console := [''git obsidian: Committed 2 files'', ''git obsidian: Pushed 2 files to remote''],
         calls := [Git_status, Git_add ''./*'', Git_commit ''vault backup: 2024-01-01 00:00:00'',
                   Git_push ''origin'' ''master'']\<rparr>)"
  by (simp add: run_defs)

lemma run_two_files_no_push:
  "createBackup (workingGit [''a.md'', ''b.md''])
     frozenWindow (loadedPlugin\<lparr>settings := defaultSettings\<lparr>autoPush := False\<rparr>\<rparr>)
   = (Inr (),
      loadedPlugin
        \<lparr>settings := defaultSettings\<lparr>autoPush := False\<rparr>,
         statusBar := \<lparr>statusBarEl = ''git: committed 2 files'', isDisplayingMessage = True\<rparr>,
         timers := [(1, Interval RefreshBar (Num 1000)), (2, Timeout ResetMessage (Num 4000))],
         lastHandle := 2,
         notices := [''Committed 2 files''],
         console := [''git obsidian: Committed 2 files''],
         calls := [Git_status, Git_add ''./*'', Git_commit ''vault backup: 2024-01-01 00:00:00'']\<rparr>)"
  by (simp add: run_defs)

lemma run_add_fails:
  "createBackup (scriptedGit [''a.md''] (Inl ''index.lock exists'') (Inr ()) (Inr ()) (Inr []))
     frozenWindow loadedPlugin
   = (Inl ''index.lock exists'',
      loadedPlugin
        \<lparr>statusBar := \<lparr>statusBarEl = ''git: cannot add files: index.lock exists'',
                        isDisplayingMessage = True\<rparr>,
         state := Add,
         notices := [''Cannot add files: index.lock exists''],
         calls := [Git_status, Git_add ''./*'']\<rparr>)"
  by (simp add: run_defs)

lemma run_commit_fails:
  "createBackup (scriptedGit [''a.md''] (Inr ()) (Inl ''nothing to commit'') (Inr ()) (Inr []))
     frozenWindow loadedPlugin
   = (Inl ''nothing to commit'',
      loadedPlugin
        \<lparr>statusBar := \<lparr>statusBarEl = ''git: committing changes..'', isDisplayingMessage = False\<rparr>,
         state := Commit,
         calls := [Git_status, Git_add ''./*'', Git_commit ''vault backup: 2024-01-01 00:00:00'']\<rparr>)"
  by (simp add: run_defs)

lemma run_push_fails:
  "createBackup (scriptedGit [''a.md''] (Inr ()) (Inr ()) (Inl ''network error'') (Inr []))
     frozenWindow loadedPlugin
   = (Inl ''network error'',
      loadedPlugin
        \<lparr>statusBar := \<lparr>statusBarEl = ''git: push failed network error'', isDisplayingMessage = True\<rparr>,
         state := Push,
         timers := [(1, Interval RefreshBar (Num 1000)), (2, Timeout ResetMessage (Num 4000))],
         lastHandle := 2,
         notices := [''Committed 1 files'', ''Push failed network error''],
         console := [''git obsidian: Committed 1 files''],
         calls := [Git_status, Git_add ''./*'', Git_commit ''vault backup: 2024-01-01 00:00:00'',
                   Git_push ''origin'' ''master'']\<rparr>)"
  by (simp add: run_defs)

lemma run_pull_fails:
  "pullChangesFromRemote (scriptedGit [] (Inr ()) (Inr ()) (Inr ()) (Inl ''no remote''))
     frozenWindow loadedPlugin
   = (Inl ''no remote'',
      loadedPlugin
        \<lparr>statusBar := \<lparr>statusBarEl = ''git: pull failed no remote'', isDisplayingMessage = True\<rparr>,
         state := Pull,
         notices := [''Pull failed no remote''],
         calls := [Git_pull]\<rparr>)"
  by (simp add: run_defs)



text \<open>
  As the claim is stated, for every non-empty list of changed files, it fails: when the
  add call fails, \<open>commit\<close> is chained behind it and never runs, and neither does the
  push, with \<open>autoPush\<close> set.
\<close>

theorem createBackup_failed_add_counterexample:
  "fst (getFilesChanged (scriptedGit [''a.md''] (Inl ''index.lock exists'') (Inr ()) (Inr ()) (Inr []))
          frozenWindow loadedPlugin) = Inr [''a.md'']
   \<and> autoPush (settings loadedPlugin)
   \<and> callsSince loadedPlugin
        (snd (createBackup (scriptedGit [''a.md''] (Inl ''index.lock exists'') (Inr ()) (Inr ()) (Inr []))
                frozenWindow loadedPlugin))
       = [Git_status, Git_add ''./*'']
   \<and> length (filter is_commit
        (callsSince loadedPlugin
          (snd (createBackup (scriptedGit [''a.md''] (Inl ''index.lock exists'') (Inr ()) (Inr ()) (Inr []))
                  frozenWindow loadedPlugin)))) = 0
   \<and> length (filter is_push
        (callsSince loadedPlugin
          (snd (createBackup (scriptedGit [''a.md''] (Inl ''index.lock exists'') (Inr ()) (Inr ()) (Inr []))
                  frozenWindow loadedPlugin)))) = 0"
proof -
  have "fst (getFilesChanged (scriptedGit [''a.md''] (Inl ''index.lock exists'') (Inr ()) (Inr ()) (Inr []))
          frozenWindow loadedPlugin) = Inr [''a.md'']"
    by (simp add: getFilesChanged_eq scriptedGit_def)
  moreover have "autoPush (settings loadedPlugin)"
    by (simp add: loadedPlugin_def defaultSettings_def)
  moreover have "calls loadedPlugin = []" by (simp add: loadedPlugin_def)
  ultimately show ?thesis by (simp add: run_add_fails callsSince_def)
qed

text \<open>
  Two changed files, every call succeeding, with \<open>autoPush\<close> set and not set; one changed
  file with the add call failing; and one changed file with the commit call failing.
\<close>

theorem createBackup_add_commit_push_once_witness:
  "fst (getFilesChanged (workingGit [''a.md'', ''b.md''])
          frozenWindow loadedPlugin) = Inr [''a.md'', ''b.md'']
   \<and> fst (add (workingGit [''a.md'', ''b.md'']) frozenWindow
        (snd (getFilesChanged (workingGit [''a.md'', ''b.md''])
                frozenWindow loadedPlugin))) = Inr ()
   \<and> fst (commit (workingGit [''a.md'', ''b.md'']) frozenWindow
        (snd (add (workingGit [''a.md'', ''b.md'']) frozenWindow
          (snd (getFilesChanged (workingGit [''a.md'', ''b.md''])
                  frozenWindow loadedPlugin))))) = Inr ()
   \<and> autoPush (settings loadedPlugin)
   \<and> length (filter is_add (callsSince loadedPlugin
        (snd (createBackup (workingGit [''a.md'', ''b.md''])
                frozenWindow loadedPlugin)))) = 1
   \<and> length (filter is_commit (callsSince loadedPlugin
        (snd (createBackup (workingGit [''a.md'', ''b.md''])
                frozenWindow loadedPlugin)))) = 1
   \<and> length (filter is_push (callsSince loadedPlugin
        (snd (createBackup (workingGit [''a.md'', ''b.md''])
                frozenWindow loadedPlugin)))) = 1
   \<and> callsSince loadedPlugin
        (snd (createBackup (workingGit [''a.md'', ''b.md''])
                frozenWindow loadedPlugin))
       = [Git_status, Git_add ''./*'', Git_commit ''vault backup: 2024-01-01 00:00:00'',
          Git_push ''origin'' ''master'']
   \<and> callsSince (loadedPlugin\<lparr>settings := defaultSettings\<lparr>autoPush := False\<rparr>\<rparr>)
        (snd (createBackup (workingGit [''a.md'', ''b.md''])
                frozenWindow (loadedPlugin\<lparr>settings := defaultSettings\<lparr>autoPush := False\<rparr>\<rparr>)))
       = [Git_status, Git_add ''./*'', Git_commit ''vault backup: 2024-01-01 00:00:00'']
   \<and> fst (add (scriptedGit [''a.md''] (Inl ''index.lock exists'') (Inr ()) (Inr ()) (Inr []))
            frozenWindow
            (snd (getFilesChanged
                    (scriptedGit [''a.md''] (Inl ''index.lock exists'') (Inr ()) (Inr ()) (Inr []))
                    frozenWindow loadedPlugin))) = Inl ''index.lock exists''
   \<and> length (filter is_add (callsSince loadedPlugin
        (snd (createBackup
                (scriptedGit [''a.md''] (Inl ''index.lock exists'') (Inr ()) (Inr ()) (Inr []))
                frozenWindow loadedPlugin)))) = 1
   \<and> length (filter is_commit (callsSince loadedPlugin
        (snd (createBackup
                (scriptedGit [''a.md''] (Inl ''index.lock exists'') (Inr ()) (Inr ()) (Inr []))
                frozenWindow loadedPlugin)))) = 0
   \<and> length (filter is_push (callsSince loadedPlugin
        (snd (createBackup
                (scriptedGit [''a.md''] (Inl ''index.lock exists'') (Inr ()) (Inr ()) (Inr []))
                frozenWindow loadedPlugin)))) = 0
   \<and> fst (add (scriptedGit [''a.md''] (Inr ()) (Inl ''nothing to commit'') (Inr ()) (Inr []))
            frozenWindow
            (snd (getFilesChanged
                    (scriptedGit [''a.md''] (Inr ()) (Inl ''nothing to commit'') (Inr ()) (Inr []))
                    frozenWindow loadedPlugin))) = Inr ()
   \<and> fst (commit (scriptedGit [''a.md''] (Inr ()) (Inl ''nothing to commit'') (Inr ()) (Inr []))
            frozenWindow
            (snd (add (scriptedGit [''a.md''] (Inr ()) (Inl ''nothing to commit'') (Inr ()) (Inr []))
                    frozenWindow
                    (snd (getFilesChanged
                            (scriptedGit [''a.md''] (Inr ()) (Inl ''nothing to commit'') (Inr ()) (Inr []))
                            frozenWindow loadedPlugin))))) = Inl ''nothing to commit''
   \<and> length (filter is_add (callsSince loadedPlugin
        (snd (createBackup
                (scriptedGit [''a.md''] (Inr ()) (Inl ''nothing to commit'') (Inr ()) (Inr []))
                frozenWindow loadedPlugin)))) = 1
   \<and> length (filter is_commit (callsSince loadedPlugin
        (snd (createBackup
                (scriptedGit [''a.md''] (Inr ()) (Inl ''nothing to commit'') (Inr ()) (Inr []))
                frozenWindow loadedPlugin)))) \<le> 1
   \<and> length (filter is_push (callsSince loadedPlugin
        (snd (createBackup
                (scriptedGit [''a.md''] (Inr ()) (Inl ''nothing to commit'') (Inr ()) (Inr []))
                frozenWindow loadedPlugin)))) = 0"
proof -
  let ?G = "workingGit [''a.md'', ''b.md'']"
  let ?Ga = "scriptedGit [''a.md''] (Inl ''index.lock exists'') (Inr ()) (Inr ()) (Inr [])"
  let ?Gc = "scriptedGit [''a.md''] (Inr ()) (Inl ''nothing to commit'') (Inr ()) (Inr [])"
  let ?w1 = "snd (getFilesChanged ?G frozenWindow loadedPlugin)"
  let ?w1a = "snd (getFilesChanged ?Ga frozenWindow loadedPlugin)"
  let ?w1c = "snd (getFilesChanged ?Gc frozenWindow loadedPlugin)"
  have h1: "fst (getFilesChanged ?G frozenWindow loadedPlugin) = Inr [''a.md'', ''b.md'']"
    by (simp add: getFilesChanged_eq scriptedGit_def)
  have h2: "fst (add ?G frozenWindow ?w1) = Inr ()"
    by (simp add: add_def Let_def scriptedGit_def)
  have h3: "fst (commit ?G frozenWindow (snd (add ?G frozenWindow ?w1))) = Inr ()"
    by (simp add: commit_def formatCommitMessage_def andThen_def status_def scriptedGit_def
        split: prod.split sum.split)
  have g1: "getFilesChanged ?G frozenWindow loadedPlugin = (Inr [''a.md'', ''b.md''], ?w1)"
    using h1 by (metis prod.collapse)
  have ne: "[''a.md'', ''b.md''] \<noteq> ([] :: string list)" by simp
  have ap: "autoPush (settings loadedPlugin)"
    by (simp add: loadedPlugin_def defaultSettings_def)
  have c0: "calls loadedPlugin = []" by (simp add: loadedPlugin_def)
  note good = createBackup_add_commit_push_once
                [OF g1 ne prod.collapse [symmetric] prod.collapse [symmetric]]
  from good h2 h3 ap have counts:
    "length (filter is_add (callsSince loadedPlugin
        (snd (createBackup ?G frozenWindow loadedPlugin)))) = 1"
    "length (filter is_commit (callsSince loadedPlugin
        (snd (createBackup ?G frozenWindow loadedPlugin)))) = 1"
    "length (filter is_push (callsSince loadedPlugin
        (snd (createBackup ?G frozenWindow loadedPlugin)))) = 1"
    by simp_all
  have all: "callsSince loadedPlugin (snd (createBackup ?G frozenWindow loadedPlugin))
       = [Git_status, Git_add ''./*'', Git_commit ''vault backup: 2024-01-01 00:00:00'',
          Git_push ''origin'' ''master'']"
    using c0 by (simp add: run_two_files callsSince_def)
  have nopush: "callsSince (loadedPlugin\<lparr>settings := defaultSettings\<lparr>autoPush := False\<rparr>\<rparr>)
        (snd (createBackup ?G frozenWindow (loadedPlugin\<lparr>settings := defaultSettings\<lparr>autoPush := False\<rparr>\<rparr>)))
       = [Git_status, Git_add ''./*'', Git_commit ''vault backup: 2024-01-01 00:00:00'']"
    using c0 by (simp add: run_two_files_no_push callsSince_def)
  have one: "[''a.md''] \<noteq> ([] :: string list)" by simp
  have g1a: "getFilesChanged ?Ga frozenWindow loadedPlugin = (Inr [''a.md''], ?w1a)"
    by (simp add: getFilesChanged_eq scriptedGit_def)
  have h2a: "fst (add ?Ga frozenWindow ?w1a) = Inl ''index.lock exists''"
    by (simp add: add_def Let_def scriptedGit_def)
  note addFails = createBackup_add_commit_push_once
                    [OF g1a one prod.collapse [symmetric] prod.collapse [symmetric]]
  from addFails h2a have countsA:
    "length (filter is_add (callsSince loadedPlugin
        (snd (createBackup ?Ga frozenWindow loadedPlugin)))) = 1"
    "length (filter is_commit (callsSince loadedPlugin
        (snd (createBackup ?Ga frozenWindow loadedPlugin)))) = 0"
    "length (filter is_push (callsSince loadedPlugin
        (snd (createBackup ?Ga frozenWindow loadedPlugin)))) = 0"
    by simp_all
  have g1c: "getFilesChanged ?Gc frozenWindow loadedPlugin = (Inr [''a.md''], ?w1c)"
    by (simp add: getFilesChanged_eq scriptedGit_def)
  have h2c: "fst (add ?Gc frozenWindow ?w1c) = Inr ()"
    by (simp add: add_def Let_def scriptedGit_def)
  have h3c: "fst (commit ?Gc frozenWindow (snd (add ?Gc frozenWindow ?w1c)))
               = Inl ''nothing to commit''"
    by (simp add: commit_def formatCommitMessage_def andThen_def status_def scriptedGit_def
        split: prod.split sum.split)
  note commitFails = createBackup_add_commit_push_once
                       [OF g1c one prod.collapse [symmetric] prod.collapse [symmetric]]
  from commitFails h2c h3c have countsC:
    "length (filter is_add (callsSince loadedPlugin
        (snd (createBackup ?Gc frozenWindow loadedPlugin)))) = 1"
    "length (filter is_commit (callsSince loadedPlugin
        (snd (createBackup ?Gc frozenWindow loadedPlugin)))) \<le> 1"
    "length (filter is_push (callsSince loadedPlugin
        (snd (createBackup ?Gc frozenWindow loadedPlugin)))) = 0"
    by simp_all
  show ?thesis
    by (intro conjI)
       (rule h1 h2 h3 ap counts all nopush h2a countsA h2c h3c countsC)+
qed

section \<open>Failures of the git client\<close>

text \<open>
  Claim C3 says that every failure of add, commit, push or pull is displayed, is not thrown
  to the caller, and leaves the state idle. The code at four failing inputs: a push that
  fails after the commit is displayed, but \<open>createBackup\<close> rejects and the state stays
  \<open>Push\<close> (the commit was made, no call follows it); a commit that fails is not displayed at
  all (no notice, the bar keeps "committing changes.."), \<open>createBackup\<close> rejects and the
  state stays \<open>Commit\<close>; a failed add and a failed pull reject too and leave \<open>Add\<close> and
  \<open>Pull\<close>.
\<close>

theorem createBackup_failure_left_unhandled:
  "fst (createBackup (scriptedGit [''a.md''] (Inr ()) (Inr ()) (Inl ''network error'') (Inr []))
          frozenWindow loadedPlugin) = Inl ''network error''
   \<and> state (snd (createBackup (scriptedGit [''a.md''] (Inr ()) (Inr ()) (Inl ''network error'') (Inr []))
                   frozenWindow loadedPlugin)) = Push
   \<and> notices (snd (createBackup (scriptedGit [''a.md''] (Inr ()) (Inr ()) (Inl ''network error'') (Inr []))
                     frozenWindow loadedPlugin))
       = [''Committed 1 files'', ''Push failed network error'']
   \<and> calls (snd (createBackup (scriptedGit [''a.md''] (Inr ()) (Inr ()) (Inl ''network error'') (Inr []))
                   frozenWindow loadedPlugin))
       = [Git_status, Git_add ''./*'', Git_commit ''vault backup: 2024-01-01 00:00:00'',
          Git_push ''origin'' ''master'']
   \<and> fst (createBackup (scriptedGit [''a.md''] (Inr ()) (Inl ''nothing to commit'') (Inr ()) (Inr []))
            frozenWindow loadedPlugin) = Inl ''nothing to commit''
   \<and> state (snd (createBackup (scriptedGit [''a.md''] (Inr ()) (Inl ''nothing to commit'') (Inr ()) (Inr []))
                   frozenWindow loadedPlugin)) = Commit
   \<and> notices (snd (createBackup (scriptedGit [''a.md''] (Inr ()) (Inl ''nothing to commit'') (Inr ()) (Inr []))
                     frozenWindow loadedPlugin)) = []
   \<and> statusBarEl (statusBar (snd (createBackup
          (scriptedGit [''a.md''] (Inr ()) (Inl ''nothing to commit'') (Inr ()) (Inr []))
          frozenWindow loadedPlugin))) = ''git: committing changes..''
   \<and> fst (createBackup (scriptedGit [''a.md''] (Inl ''index.lock exists'') (Inr ()) (Inr ()) (Inr []))
            frozenWindow loadedPlugin) = Inl ''index.lock exists''
   \<and> state (snd (createBackup (scriptedGit [''a.md''] (Inl ''index.lock exists'') (Inr ()) (Inr ()) (Inr []))
                   frozenWindow loadedPlugin)) = Add
   \<and> fst (pullChangesFromRemote (scriptedGit [] (Inr ()) (Inr ()) (Inr ()) (Inl ''no remote''))
            frozenWindow loadedPlugin) = Inl ''no remote''
   \<and> state (snd (pullChangesFromRemote (scriptedGit [] (Inr ()) (Inr ()) (Inr ()) (Inl ''no remote''))
                   frozenWindow loadedPlugin)) = Pull"
  unfolding run_push_fails run_commit_fails run_add_fails run_pull_fails
  by (simp add: loadedPlugin_def)

section \<open>A cycle with nothing to commit\<close>




section \<open>Starting a cycle\<close>

lemma setState_forgets_state: "setState E st' (w\<lparr>state := st\<rparr>) = setState E st' w"
  by (simp add: setState_def refreshStatusBar_def)

lemma getFilesChanged_forgets_state:
  "getFilesChanged G E (w\<lparr>state := st\<rparr>) = getFilesChanged G E w"
  by (simp add: getFilesChanged_def setState_forgets_state)

text \<open>
  Claim C4, as amended. No way of starting a cycle reads the state: \<open>createBackup\<close> (also
  as the callback of the backup timer), \<open>pullChangesFromRemote\<close> and the command
  "Commit *all* changes and push" do the same whatever the state is when they start; their
  first step overwrites it. A cycle is therefore started while another one is under way.
\<close>

theorem cycle_start_ignores_state:
  "createBackup G E (w\<lparr>state := st\<rparr>) = createBackup G E w
   \<and> pullChangesFromRemote G E (w\<lparr>state := st\<rparr>) = pullChangesFromRemote G E w
   \<and> pushCommand G E (w\<lparr>state := st\<rparr>) = pushCommand G E w
   \<and> runCallback G E Backup (w\<lparr>state := st\<rparr>) = runCallback G E Backup w"
proof -
  have cb: "createBackup G E (w\<lparr>state := st\<rparr>) = createBackup G E w"
    by (simp add: createBackup_def getFilesChanged_forgets_state)
  have "pull G E (w\<lparr>state := st\<rparr>) = pull G E w"
    by (simp add: pull_def setState_forgets_state)
  then have pl: "pullChangesFromRemote G E (w\<lparr>state := st\<rparr>) = pullChangesFromRemote G E w"
    by (simp add: pullChangesFromRemote_def)
  have pc: "pushCommand G E (w\<lparr>state := st\<rparr>) = pushCommand G E w"
    by (simp add: pushCommand_def getFilesChanged_forgets_state)
  show ?thesis using cb pl pc by (simp add: runCallback_def)
qed

text \<open>
  With the state at \<open>Commit\<close>, that is with a cycle at its commit step, \<open>createBackup\<close>
  and \<open>pullChangesFromRemote\<close> still make their git calls.
\<close>

theorem cycle_started_while_committing_counterexample:
  "state (loadedPlugin\<lparr>state := Commit\<rparr>) = Commit
   \<and> callsSince (loadedPlugin\<lparr>state := Commit\<rparr>)
        (snd (createBackup (workingGit [''a.md'', ''b.md''])
                frozenWindow (loadedPlugin\<lparr>state := Commit\<rparr>)))
       = [Git_status, Git_add ''./*'', Git_commit ''vault backup: 2024-01-01 00:00:00'',
          Git_push ''origin'' ''master'']
   \<and> callsSince (loadedPlugin\<lparr>state := Commit\<rparr>)
        (snd (pullChangesFromRemote (workingGit [''a.md'', ''b.md''])
                frozenWindow (loadedPlugin\<lparr>state := Commit\<rparr>)))
       = [Git_pull]"
proof -
  have c0: "calls loadedPlugin = []" by (simp add: loadedPlugin_def)
  have cb: "createBackup (workingGit [''a.md'', ''b.md''])
                frozenWindow (loadedPlugin\<lparr>state := Commit\<rparr>)
            = createBackup (workingGit [''a.md'', ''b.md''])
                frozenWindow loadedPlugin"
    by (simp add: createBackup_def getFilesChanged_forgets_state)
  have pl: "calls (snd (pullChangesFromRemote (workingGit [''a.md'', ''b.md''])
                frozenWindow (loadedPlugin\<lparr>state := Commit\<rparr>))) = [Git_pull]"
    using c0 by (simp add: pullChangesFromRemote_def pull_def andThen_def Let_def scriptedGit_def)
  show ?thesis
    unfolding cb run_two_files using c0 pl by (simp add: callsSince_def)
qed

section \<open>The backup timer\<close>

lemma filter_empty_callback:
  assumes "filter (\<lambda>t. callbackOf (snd t) = cb) ts = []" and "map_of ts h = Some t"
  shows "callbackOf t \<noteq> cb"
proof -
  from assms(2) have "(h, t) \<in> set ts" by (rule map_of_SomeD)
  with assms(1) show ?thesis by (auto simp: filter_empty_conv)
qed

lemma backupTimers_clearInterval:
  "backupTimers w = [] \<Longrightarrow> backupTimers (clearInterval h w) = []"
  by (auto simp: backupTimers_def clearInterval_def filter_empty_conv)

lemma resetTimers_clearInterval:
  "resetTimers w = [] \<Longrightarrow> resetTimers (clearInterval h w) = []"
  by (auto simp: resetTimers_def clearInterval_def filter_empty_conv)

lemma runCallback_not_backup:
  assumes "cb \<noteq> Backup"
  shows "calls (runCallback G E cb w) = calls w" and "timers (runCallback G E cb w) = timers w"
  using assms by (cases cb; simp add: runCallback_def)+

lemma fire_without_backup:
  assumes "backupTimers w = []"
  shows "calls (fire G E h w) = calls w \<and> backupTimers (fire G E h w) = []"
proof (cases "map_of (timers w) h")
  case None
  then show ?thesis using assms by (simp add: fire_def)
next
  case (Some t)
  from assms have "filter (\<lambda>t. callbackOf (snd t) = Backup) (timers w) = []"
    by (simp add: backupTimers_def)
  from filter_empty_callback [OF this Some] have nb: "callbackOf t \<noteq> Backup" .
  show ?thesis
  proof (cases t)
    case (Interval cb ms)
    with nb have "cb \<noteq> Backup" by simp
    from runCallback_not_backup [OF this, of G E w] show ?thesis
      using Some Interval assms by (simp add: fire_def backupTimers_def)
  next
    case (Timeout cb ms)
    with nb have "cb \<noteq> Backup" by simp
    from runCallback_not_backup [OF this, of G E "clearInterval h w"] show ?thesis
      using Some Timeout backupTimers_clearInterval [OF assms, of h]
      by (simp add: fire_def backupTimers_def clearInterval_def)
  qed
qed

lemma fires_without_backup:
  "backupTimers w = [] \<Longrightarrow> calls (fires G E hs w) = calls w"
proof (induction hs arbitrary: w)
  case Nil
  show ?case by simp
next
  case (Cons h hs)
  from fire_without_backup [OF Cons.prems, of G E h]
  have c: "calls (fire G E h w) = calls w" and b: "backupTimers (fire G E h w) = []" by auto
  from Cons.IH [OF b] c show ?case by simp
qed

lemma no_backup_tracked: "backupTimers w = [] \<Longrightarrow> backupTracked w"
  by (auto simp: backupTimers_def backupTracked_def filter_empty_conv list_all_iff)

lemma disableAutoBackup_clears:
  assumes "backupTracked w"
  shows "backupTimers (snd (disableAutoBackup w)) = []"
proof (cases "defined (intervalID w)")
  case True
  then obtain h where h: "intervalID w = Some h" by (cases "intervalID w") auto
  with assms True show ?thesis
    by (auto simp: disableAutoBackup_def backupTimers_def backupTracked_def clearInterval_def
        filter_empty_conv list_all_iff)
next
  case False
  have "backupTimers w = []"
  proof (rule ccontr)
    assume "backupTimers w \<noteq> []"
    then obtain h t where "(h, t) \<in> set (timers w)" and "callbackOf t = Backup"
      by (auto simp: backupTimers_def filter_empty_conv)
    with assms have "h \<noteq> 0 \<and> intervalID w = Some h"
      by (auto simp: backupTracked_def list_all_iff)
    with False show False by simp
  qed
  with False show ?thesis by (simp add: disableAutoBackup_def)
qed

lemma disableAutoBackup_fields:
  "lastHandle (snd (disableAutoBackup w)) = lastHandle w"
  "settings (snd (disableAutoBackup w)) = settings w"
  "calls (snd (disableAutoBackup w)) = calls w"
  by (simp_all add: disableAutoBackup_def clearInterval_def)

lemma enableAutoBackup_timers:
  "backupTimers w = [] \<Longrightarrow>
     backupTimers (enableAutoBackup E w)
       = [(Suc (lastHandle w), Interval Backup (times60000 E (autoSaveInterval (settings w))))]"
  "intervalID (enableAutoBackup E w) = Some (Suc (lastHandle w))"
  "calls (enableAutoBackup E w) = calls w"
  by (simp_all add: enableAutoBackup_def setInterval_def backupTimers_def Let_def)

lemma enableAutoBackup_tracked:
  "backupTimers w = [] \<Longrightarrow> backupTracked (enableAutoBackup E w)"
  by (auto simp: enableAutoBackup_def setInterval_def backupTimers_def backupTracked_def Let_def
      filter_empty_conv list_all_iff)

lemma pullChangesFromRemote_calls:
  "calls (snd (pullChangesFromRemote G E w)) = calls w @ [Git_pull]"
  by (simp add: pullChangesFromRemote_def pull_def andThen_def Let_def split: sum.split)

lemma onChange_autoSaveInterval_effect:
  assumes "backupTracked w" and "\<not> isNaN (Number E v)"
  shows "backupTracked (onChange_autoSaveInterval E v w)
       \<and> (if gt0 (Number E v)
          then backupTimers (onChange_autoSaveInterval E v w)
                 = [(Suc (lastHandle w), Interval Backup (times60000 E (Number E v)))]
          else backupTimers (onChange_autoSaveInterval E v w) = []
               \<and> (\<forall>hs. calls (fires G E hs (onChange_autoSaveInterval E v w)) = calls w))
       \<and> calls (snd (pullChangesFromRemote G E (onChange_autoSaveInterval E v w)))
           = calls w @ [Git_pull]"
proof -
  let ?w1 = "saveData (w\<lparr>settings := (settings w)\<lparr>autoSaveInterval := Number E v\<rparr>\<rparr>)"
  have t1: "backupTracked ?w1"
    using assms(1) by (simp add: backupTracked_def saveData_def)
  have f1: "lastHandle ?w1 = lastHandle w" "autoSaveInterval (settings ?w1) = Number E v"
    "calls ?w1 = calls w"
    by (simp_all add: saveData_def)
  note cl = disableAutoBackup_clears [OF t1]
  show ?thesis
  proof (cases "gt0 (Number E v)")
    case True
    let ?w3 = "enableAutoBackup E (snd (disableAutoBackup ?w1))"
    have eq: "onChange_autoSaveInterval E v w
                = Notice (''Automatic backup enabled! Every ''
                           @ String_of_number E (Number E v) @ '' minutes.'') ?w3"
      using True assms(2) by (simp add: onChange_autoSaveInterval_def Let_def f1)
    have bt: "backupTimers ?w3 = [(Suc (lastHandle w), Interval Backup (times60000 E (Number E v)))]"
      using enableAutoBackup_timers(1) [OF cl] by (simp add: disableAutoBackup_fields f1)
    have tr: "backupTracked ?w3" by (rule enableAutoBackup_tracked [OF cl])
    have c: "calls ?w3 = calls w"
      by (simp add: enableAutoBackup_timers disableAutoBackup_fields f1)
    show ?thesis
      unfolding eq using True bt tr c
      by (simp add: Notice_def backupTimers_def backupTracked_def pullChangesFromRemote_calls)
  next
    case False
    with assms(2) have le: "le0 (Number E v)" by (cases "Number E v") auto
    have "backupTimers (onChange_autoSaveInterval E v w) = []
          \<and> calls (onChange_autoSaveInterval E v w) = calls w"
    proof (cases "defined (intervalID ?w1)")
      case True
      then have "onChange_autoSaveInterval E v w
                   = Notice ''Automatic backup disabled!'' (snd (disableAutoBackup ?w1))"
        using False le assms(2)
        by (simp add: onChange_autoSaveInterval_def Let_def f1 disableAutoBackup_def)
      then show ?thesis using cl
        by (simp add: Notice_def backupTimers_def disableAutoBackup_fields f1)
    next
      case nd: False
      then have "onChange_autoSaveInterval E v w = ?w1"
        using False le assms(2) by (simp add: onChange_autoSaveInterval_def Let_def f1)
      moreover have "snd (disableAutoBackup ?w1) = ?w1" using nd by (simp add: disableAutoBackup_def)
      ultimately show ?thesis using cl f1 by simp
    qed
    then have bt: "backupTimers (onChange_autoSaveInterval E v w) = []"
      and c: "calls (onChange_autoSaveInterval E v w) = calls w" by auto
    from fires_without_backup [OF bt, of G E] c
    have "\<forall>hs. calls (fires G E hs (onChange_autoSaveInterval E v w)) = calls w" by simp
    then show ?thesis
      using False bt c no_backup_tracked [OF bt] by (simp add: pullChangesFromRemote_calls)
  qed
qed

lemma sameBackupTimer_refl: "sameBackupTimer w w"
  by (simp add: sameBackupTimer_def)

lemma sameBackupTimer_trans:
  "sameBackupTimer w w1 \<Longrightarrow> sameBackupTimer w1 w2 \<Longrightarrow> sameBackupTimer w w2"
  by (simp add: sameBackupTimer_def)

lemma sameBackupTimer_tracked:
  "sameBackupTimer w w' \<Longrightarrow> backupTracked w \<Longrightarrow> backupTracked w'"
proof -
  have eq: "\<And>u. backupTracked u
      = list_all (\<lambda>t. fst t \<noteq> 0 \<and> intervalID u = Some (fst t)) (backupTimers u)"
    unfolding backupTracked_def backupTimers_def list_all_iff by fastforce
  assume "sameBackupTimer w w'" and "backupTracked w"
  then show "backupTracked w'" by (simp add: eq sameBackupTimer_def)
qed

lemma sameBackupTimer_andThen:
  assumes "sameBackupTimer w (snd p)"
    and "\<And>x. sameBackupTimer (snd p) (snd (k x (snd p)))"
  shows "sameBackupTimer w (snd (andThen p k))"
proof (cases p)
  case (Pair r w1)
  show ?thesis
  proof (cases r)
    case (Inl e)
    with Pair assms(1) show ?thesis by (simp add: andThen_def)
  next
    case (Inr x)
    with Pair assms(1) assms(2) [of x] show ?thesis
      by (auto simp: andThen_def intro: sameBackupTimer_trans)
  qed
qed

lemma sameBackupTimer_StatusBar_displayMessage:
  "sameBackupTimer w (StatusBar_displayMessage m t w)"
  by (simp add: sameBackupTimer_def StatusBar_displayMessage_def setTimeout_def Let_def
      backupTimers_def)

lemma sameBackupTimer_displayMessage: "sameBackupTimer w (displayMessage m t w)"
  by (simp add: sameBackupTimer_def displayMessage_def StatusBar_displayMessage_def
      setTimeout_def Let_def backupTimers_def Notice_def)

lemma sameBackupTimer_displayError: "sameBackupTimer w (displayError m t w)"
  by (simp add: sameBackupTimer_def displayError_def StatusBar_displayMessage_def
      setTimeout_def Let_def backupTimers_def Notice_def)

lemma sameBackupTimer_setState: "sameBackupTimer w (setState E st w)"
  by (simp add: sameBackupTimer_def backupTimers_def)

lemma sameBackupTimer_calls: "sameBackupTimer w (w\<lparr>calls := cs\<rparr>)"
  by (simp add: sameBackupTimer_def backupTimers_def)

lemma sameBackupTimer_lastUpdate: "sameBackupTimer w (w\<lparr>lastUpdate := t\<rparr>)"
  by (simp add: sameBackupTimer_def backupTimers_def)

lemma sameBackupTimer_getFilesChanged: "sameBackupTimer w (snd (getFilesChanged G E w))"
  by (simp add: sameBackupTimer_def backupTimers_def getFilesChanged_eq)

lemma sameBackupTimer_formatCommitMessage:
  "sameBackupTimer w (snd (formatCommitMessage G E t w))"
  by (simp add: sameBackupTimer_def backupTimers_def formatCommitMessage_def andThen_def
      status_def split: sum.split)

lemma sameBackupTimer_add: "sameBackupTimer w (snd (add G E w))"
proof -
  let ?w2 = "(setState E Add w)\<lparr>calls := calls (setState E Add w) @ [Git_add ''./*'']\<rparr>"
  have a: "sameBackupTimer w ?w2"
    by (simp add: sameBackupTimer_def backupTimers_def)
  show ?thesis
  proof (cases "git_add G (calls w)")
    case (Inl err)
    then have "snd (add G E w) = displayError (''Cannot add files: '' @ err) None ?w2"
      by (simp add: add_def Let_def)
    with a sameBackupTimer_displayError [of ?w2] show ?thesis
      by (auto intro: sameBackupTimer_trans)
  next
    case (Inr u)
    then have "snd (add G E w) = ?w2" by (simp add: add_def Let_def)
    with a show ?thesis by simp
  qed
qed

lemma sameBackupTimer_push: "sameBackupTimer w (snd (push G E w))"
proof -
  let ?w2 = "(setState E Push w)\<lparr>calls := calls (setState E Push w)
                @ [Git_push (remote (settings (setState E Push w)))
                     (currentBranch (settings (setState E Push w)))]\<rparr>"
  have a: "sameBackupTimer w ?w2"
    by (simp add: sameBackupTimer_def backupTimers_def)
  show ?thesis
  proof (cases "git_push G (calls w)")
    case (Inl err)
    then have "snd (push G E w) = displayError (''Push failed '' @ err) None ?w2"
      by (simp add: push_def Let_def)
    with a sameBackupTimer_displayError [of ?w2] show ?thesis
      by (auto intro: sameBackupTimer_trans)
  next
    case (Inr u)
    then have "snd (push G E w) = ?w2\<lparr>lastUpdate := Some (dateNow E (calls ?w2))\<rparr>"
      by (simp add: push_def Let_def)
    with a sameBackupTimer_lastUpdate [of ?w2] show ?thesis
      by (auto intro: sameBackupTimer_trans)
  qed
qed

lemma sameBackupTimer_pull: "sameBackupTimer w (snd (pull G E w))"
proof -
  let ?w2 = "(setState E Pull w)\<lparr>calls := calls (setState E Pull w) @ [Git_pull]\<rparr>"
  have a: "sameBackupTimer w ?w2"
    by (simp add: sameBackupTimer_def backupTimers_def)
  show ?thesis
  proof (cases "git_pull G (calls w)")
    case (Inl err)
    then have "snd (pull G E w) = displayError (''Pull failed '' @ err) None ?w2"
      by (simp add: pull_def Let_def)
    with a sameBackupTimer_displayError [of ?w2] show ?thesis
      by (auto intro: sameBackupTimer_trans)
  next
    case (Inr files)
    then have "snd (pull G E w) = ?w2\<lparr>lastUpdate := Some (dateNow E (calls ?w2))\<rparr>"
      by (simp add: pull_def Let_def)
    with a sameBackupTimer_lastUpdate [of ?w2] show ?thesis
      by (auto intro: sameBackupTimer_trans)
  qed
qed

lemma sameBackupTimer_andThen_all:
  assumes "sameBackupTimer w (snd p)" and "\<And>x w1. sameBackupTimer w1 (snd (k x w1))"
  shows "sameBackupTimer w (snd (andThen p k))"
  using assms by (intro sameBackupTimer_andThen) auto

lemma sameBackupTimer_commit: "sameBackupTimer w (snd (commit G E w))"
  unfolding commit_def
proof (rule sameBackupTimer_andThen_all)
  show "sameBackupTimer w
          (snd (formatCommitMessage G E (commitMessage (settings w)) (setState E Commit w)))"
    using sameBackupTimer_setState sameBackupTimer_formatCommitMessage sameBackupTimer_trans
    by blast
qed (simp add: sameBackupTimer_calls)

lemma sameBackupTimer_createBackup: "sameBackupTimer w (snd (createBackup G E w))"
  unfolding createBackup_def
  by (intro sameBackupTimer_andThen_all sameBackupTimer_getFilesChanged)
     (auto intro!: sameBackupTimer_andThen_all
           simp: sameBackupTimer_add sameBackupTimer_commit sameBackupTimer_push
                 sameBackupTimer_displayMessage sameBackupTimer_setState sameBackupTimer_refl)

lemma sameBackupTimer_pullChangesFromRemote:
  "sameBackupTimer w (snd (pullChangesFromRemote G E w))"
  unfolding pullChangesFromRemote_def
  by (intro sameBackupTimer_andThen_all sameBackupTimer_pull)
     (auto simp: sameBackupTimer_displayMessage sameBackupTimer_setState)

lemma sameBackupTimer_pushCommand: "sameBackupTimer w (snd (pushCommand G E w))"
  unfolding pushCommand_def
  by (intro sameBackupTimer_andThen_all sameBackupTimer_getFilesChanged)
     (auto simp: sameBackupTimer_displayMessage sameBackupTimer_createBackup)

lemma backupTracked_clearInterval: "backupTracked w \<Longrightarrow> backupTracked (clearInterval h w)"
  by (auto simp: backupTracked_def clearInterval_def list_all_iff)

lemma backupTracked_runCallback: "backupTracked w \<Longrightarrow> backupTracked (runCallback G E cb w)"
proof (cases cb)
  case Backup
  assume "backupTracked w"
  with sameBackupTimer_createBackup [of w G E] Backup show ?thesis
    by (auto simp: runCallback_def intro: sameBackupTimer_tracked)
next
  case RefreshBar
  assume "backupTracked w"
  with RefreshBar show ?thesis by (simp add: runCallback_def backupTracked_def)
next
  case ResetMessage
  assume "backupTracked w"
  with ResetMessage show ?thesis by (simp add: runCallback_def backupTracked_def)
qed

lemma backupTracked_fire: "backupTracked w \<Longrightarrow> backupTracked (fire G E h w)"
  by (auto simp: fire_def backupTracked_runCallback backupTracked_clearInterval
      split: option.split timer.split)

lemma pull_backupTimers:
  assumes "pull G E w = (r, w')"
  shows "backupTimers w' = backupTimers w"
  using sameBackupTimer_pull [of w G E] assms by (simp add: sameBackupTimer_def)

lemma displayMessage_backupTimers: "backupTimers (displayMessage m t w) = backupTimers w"
  using sameBackupTimer_displayMessage [of w m t] by (simp add: sameBackupTimer_def)

lemma setState_backupTimers: "backupTimers (setState E st w) = backupTimers w"
  by (simp add: backupTimers_def)

lemma settings_backupTimers: "backupTimers (w\<lparr>settings := s\<rparr>) = backupTimers w"
  by (simp add: backupTimers_def)

lemma onload_tail_tracked:
  assumes "backupTimers w = []"
  shows "backupTracked
           (snd (let w8 = (if gt0 (autoSaveInterval (settings w)) then enableAutoBackup E w else w);
                     (h, w9) = setInterval RefreshBar (Num 1000) w8
                 in (Inr (), w9\<lparr>registered := registered w9 @ [h]\<rparr>)))"
proof -
  let ?w8 = "if gt0 (autoSaveInterval (settings w)) then enableAutoBackup E w else w"
  have "backupTracked ?w8"
    using assms by (simp add: enableAutoBackup_tracked no_backup_tracked)
  then show ?thesis
    by (simp add: Let_def setInterval_def backupTracked_def)
qed

lemma onload_backupTracked:
  assumes "timers w = []"
  shows "backupTracked (snd (onload G E w))"
proof -
  let ?w2 = "(setState E Idle (w\<lparr>statusBar := \<lparr>statusBarEl = [], isDisplayingMessage = False\<rparr>\<rparr>))
               \<lparr>settings := (case loadData E of Some s \<Rightarrow> s | None \<Rightarrow> ObsidianGitSettings_new)\<rparr>"
  have b2: "backupTimers ?w2 = []" using assms by (simp add: backupTimers_def)
  show ?thesis
  proof (cases "git_branch G")
    case (Inl e)
    then show ?thesis using b2 by (simp add: onload_def andThen_def Let_def no_backup_tracked)
  next
    case branch: (Inr current)
    let ?w3 = "?w2\<lparr>settings := (settings ?w2)\<lparr>currentBranch := current\<rparr>\<rparr>"
    have b3: "backupTimers ?w3 = []" using b2 by (simp add: backupTimers_def)
    show ?thesis
    proof (cases "git_remote G")
      case (Inl e)
      then show ?thesis
        using branch b3 by (simp add: onload_def andThen_def Let_def no_backup_tracked)
    next
      case remote: (Inr remoteAnswer)
      show ?thesis
      proof (cases remoteAnswer)
        case None
        have "backupTimers (displayMessage ''Failed to detect remote.'' (Some (Num 0)) ?w3) = []"
          using b3 by (simp only: displayMessage_backupTimers)
        then show ?thesis
          using branch remote None
          by (simp add: onload_def andThen_def Let_def no_backup_tracked)
      next
        case (Some r)
        let ?w5 = "?w3\<lparr>settings := (settings ?w3)\<lparr>remote := trim r\<rparr>\<rparr>"
        have b5: "backupTimers ?w5 = []" using b3 by (simp add: backupTimers_def)
        let ?boot = "if autoPullOnBoot (settings ?w5)
                     then andThen (pull G E ?w5)
                            (\<lambda>filesUpdated w6.
                               (Inr (),
                                displayMessage
                                  (if filesUpdated > 0
                                   then ''Pulled new changes. '' @ String_of_nat filesUpdated
                                          @ '' files updated''
                                   else ''Everything up-to-date'')
                                  None (setState E Idle w6)))
                     else (Inr (), ?w5)"
        have bb: "backupTimers (snd ?boot) = []"
        proof (cases "autoPullOnBoot (settings ?w5)")
          case False
          then show ?thesis using b5 by simp
        next
          case True
          obtain res w6 where p: "pull G E ?w5 = (res, w6)" by (cases "pull G E ?w5")
          from pull_backupTimers [OF p] b5 have "backupTimers w6 = []" by simp
          then show ?thesis
            using True p
            by (cases res) (simp_all add: andThen_def displayMessage_backupTimers setState_backupTimers)
        qed
        have eq: "onload G E w =
                    andThen ?boot
                      (\<lambda>u w7.
                          let w8 = (if gt0 (autoSaveInterval (settings w7))
                                    then enableAutoBackup E w7 else w7);
                              (h, w9) = setInterval RefreshBar (Num 1000) w8
                          in (Inr (), w9\<lparr>registered := registered w9 @ [h]\<rparr>))"
          using branch remote Some by (simp add: onload_def andThen_def Let_def)
        obtain res w7 where boot: "?boot = (res, w7)" by (cases ?boot)
        with bb have b7: "backupTimers w7 = []" by simp
        show ?thesis
        proof (cases res)
          case (Inl e)
          with boot b7 show ?thesis
            unfolding eq by (simp add: andThen_def no_backup_tracked)
        next
          case (Inr u)
          with boot onload_tail_tracked [of w7 E, OF b7] show ?thesis
            unfolding eq by (simp add: andThen_def)
        qed
      qed
    qed
  qed
qed

lemma reachable_backupTracked: "reachable G E w \<Longrightarrow> backupTracked w"
proof (induction rule: reachable.induct)
  case (loaded w)
  then show ?case by (rule onload_backupTracked)
next
  case (timer_fires w h)
  then show ?case by (simp add: backupTracked_fire)
next
  case (pull_command w)
  from sameBackupTimer_tracked [OF sameBackupTimer_pullChangesFromRemote pull_command.IH] show ?case .
next
  case (push_command w)
  from sameBackupTimer_tracked [OF sameBackupTimer_pushCommand push_command.IH] show ?case .
next
  case (preview w)
  from sameBackupTimer_tracked [OF sameBackupTimer_formatCommitMessage preview.IH] show ?case .
next
  case (interval_setting w v)
  show ?case
  proof (cases "isNaN (Number E v)")
    case True
    with interval_setting.IH show ?thesis
      by (simp add: onChange_autoSaveInterval_def Notice_def backupTracked_def)
  next
    case False
    from onChange_autoSaveInterval_effect [OF interval_setting.IH False, of G] show ?thesis
      by simp
  qed
next
  case (other_setting w s)
  then show ?case by (simp add: saveData_def backupTracked_def)
qed

subsection \<open>The commands do not read the timer\<close>

lemma sameOutcome_andThen:
  assumes "sameOutcome p p'"
    and "\<And>x u u'. sameBesidesTimers u u' \<Longrightarrow> sameOutcome (k x u) (k' x u')"
  shows "sameOutcome (andThen p k) (andThen p' k')"
proof (cases p)
  case (Pair r u)
  obtain r' u' where p': "p' = (r', u')" by (cases p')
  from assms(1) Pair p' have r: "r' = r" and u: "sameBesidesTimers u u'"
    by (simp_all add: sameOutcome_def)
  show ?thesis
  proof (cases r)
    case (Inl e)
    with Pair p' r u show ?thesis by (simp add: andThen_def sameOutcome_def)
  next
    case (Inr x)
    with Pair p' r assms(2) [OF u, of x] show ?thesis by (simp add: andThen_def)
  qed
qed

lemma sameOutcome_resolved:
  "sameBesidesTimers u u' \<Longrightarrow> sameOutcome (Inr x, u) (Inr x, u')"
  by (simp add: sameOutcome_def)

lemma sameBesidesTimers_setState:
  "sameBesidesTimers w w' \<Longrightarrow> sameBesidesTimers (setState E st w) (setState E st w')"
  by (simp add: sameBesidesTimers_def setState_def refreshStatusBar_def)

lemma sameBesidesTimers_StatusBar_displayMessage:
  "sameBesidesTimers w w'
   \<Longrightarrow> sameBesidesTimers (StatusBar_displayMessage m t w) (StatusBar_displayMessage m t w')"
  by (simp add: sameBesidesTimers_def StatusBar_displayMessage_def setTimeout_def Let_def)

lemma sameBesidesTimers_displayMessage:
  "sameBesidesTimers w w' \<Longrightarrow> sameBesidesTimers (displayMessage m t w) (displayMessage m t w')"
  by (simp add: sameBesidesTimers_def displayMessage_def StatusBar_displayMessage_def
      setTimeout_def Notice_def Let_def)

lemma sameBesidesTimers_displayError:
  "sameBesidesTimers w w' \<Longrightarrow> sameBesidesTimers (displayError m t w) (displayError m t w')"
  by (simp add: sameBesidesTimers_def displayError_def StatusBar_displayMessage_def
      setTimeout_def Notice_def Let_def)

lemma sameOutcome_status:
  "sameBesidesTimers w w' \<Longrightarrow> sameOutcome (status G w) (status G w')"
  by (simp add: sameOutcome_def sameBesidesTimers_def status_def)

lemma sameOutcome_getFilesChanged:
  "sameBesidesTimers w w' \<Longrightarrow> sameOutcome (getFilesChanged G E w) (getFilesChanged G E w')"
  unfolding getFilesChanged_def
  by (intro sameOutcome_status sameBesidesTimers_setState)

lemma sameOutcome_formatCommitMessage:
  assumes "sameBesidesTimers w w'"
  shows "sameOutcome (formatCommitMessage G E t w) (formatCommitMessage G E t w')"
  unfolding formatCommitMessage_def
proof (rule sameOutcome_andThen)
  show "sameOutcome
          (if includes_str t ''{{numFiles}}''
           then andThen (status G w)
                  (\<lambda>files w1. (Inr (replace_str t ''{{numFiles}}'' (String_of_nat (length files))), w1))
           else (Inr t, w))
          (if includes_str t ''{{numFiles}}''
           then andThen (status G w')
                  (\<lambda>files w1. (Inr (replace_str t ''{{numFiles}}'' (String_of_nat (length files))), w1))
           else (Inr t, w'))"
    using assms
    by (auto intro!: sameOutcome_andThen sameOutcome_status sameOutcome_resolved)
next
  fix x u u'
  assume "sameBesidesTimers u u'"
  then show "sameOutcome
          (Inr (replace_str x ''{{date}}''
                  (momentFormat E (dateNow E (calls u)) (commitDateFormat (settings u)))), u)
          (Inr (replace_str x ''{{date}}''
                  (momentFormat E (dateNow E (calls u')) (commitDateFormat (settings u')))), u')"
    by (simp add: sameOutcome_def sameBesidesTimers_def)
qed

lemma sameOutcome_add:
  assumes "sameBesidesTimers w w'"
  shows "sameOutcome (add G E w) (add G E w')"
proof -
  from assms have c: "calls w' = calls w" by (simp add: sameBesidesTimers_def)
  let ?u = "(setState E Add w)\<lparr>calls := calls (setState E Add w) @ [Git_add ''./*'']\<rparr>"
  let ?u' = "(setState E Add w')\<lparr>calls := calls (setState E Add w') @ [Git_add ''./*'']\<rparr>"
  have u: "sameBesidesTimers ?u ?u'"
    using sameBesidesTimers_setState [OF assms, of E Add] by (simp add: sameBesidesTimers_def)
  show ?thesis
  proof (cases "git_add G (calls w)")
    case (Inl err)
    with c sameBesidesTimers_displayError [OF u] show ?thesis
      by (simp add: add_def Let_def sameOutcome_def)
  next
    case (Inr x)
    with c u show ?thesis by (simp add: add_def Let_def sameOutcome_def)
  qed
qed

lemma sameOutcome_push:
  assumes "sameBesidesTimers w w'"
  shows "sameOutcome (push G E w) (push G E w')"
proof -
  from assms have c: "calls w' = calls w" and r: "remote (settings w') = remote (settings w)"
    and b: "currentBranch (settings w') = currentBranch (settings w)"
    by (simp_all add: sameBesidesTimers_def)
  let ?u = "(setState E Push w)\<lparr>calls := calls (setState E Push w)
              @ [Git_push (remote (settings w)) (currentBranch (settings w))]\<rparr>"
  let ?u' = "(setState E Push w')\<lparr>calls := calls (setState E Push w')
              @ [Git_push (remote (settings w)) (currentBranch (settings w))]\<rparr>"
  have u: "sameBesidesTimers ?u ?u'"
    using sameBesidesTimers_setState [OF assms, of E Push] by (simp add: sameBesidesTimers_def)
  show ?thesis
  proof (cases "git_push G (calls w)")
    case (Inl err)
    with c r b sameBesidesTimers_displayError [OF u] show ?thesis
      by (simp add: push_def Let_def sameOutcome_def)
  next
    case (Inr x)
    with c r b u show ?thesis
      by (simp add: push_def Let_def sameOutcome_def) (simp add: sameBesidesTimers_def)
  qed
qed

lemma sameOutcome_pull:
  assumes "sameBesidesTimers w w'"
  shows "sameOutcome (pull G E w) (pull G E w')"
proof -
  from assms have c: "calls w' = calls w" by (simp add: sameBesidesTimers_def)
  let ?u = "(setState E Pull w)\<lparr>calls := calls (setState E Pull w) @ [Git_pull]\<rparr>"
  let ?u' = "(setState E Pull w')\<lparr>calls := calls (setState E Pull w') @ [Git_pull]\<rparr>"
  have u: "sameBesidesTimers ?u ?u'"
    using sameBesidesTimers_setState [OF assms, of E Pull] by (simp add: sameBesidesTimers_def)
  show ?thesis
  proof (cases "git_pull G (calls w)")
    case (Inl err)
    with c sameBesidesTimers_displayError [OF u] show ?thesis
      by (simp add: pull_def Let_def sameOutcome_def)
  next
    case (Inr x)
    with c u show ?thesis
      by (simp add: pull_def Let_def sameOutcome_def) (simp add: sameBesidesTimers_def)
  qed
qed

lemma sameOutcome_commit:
  assumes "sameBesidesTimers w w'"
  shows "sameOutcome (commit G E w) (commit G E w')"
proof -
  from assms have m: "commitMessage (settings w') = commitMessage (settings w)"
    by (simp add: sameBesidesTimers_def)
  show ?thesis
    unfolding commit_def m
  proof (rule sameOutcome_andThen)
    show "sameOutcome
            (formatCommitMessage G E (commitMessage (settings w)) (setState E Commit w))
            (formatCommitMessage G E (commitMessage (settings w)) (setState E Commit w'))"
      by (intro sameOutcome_formatCommitMessage sameBesidesTimers_setState assms)
  next
    fix x u u'
    assume "sameBesidesTimers u u'"
    then show "sameOutcome (git_commit G (calls u), u\<lparr>calls := calls u @ [Git_commit x]\<rparr>)
                 (git_commit G (calls u'), u'\<lparr>calls := calls u' @ [Git_commit x]\<rparr>)"
      by (simp add: sameOutcome_def sameBesidesTimers_def)
  qed
qed

lemma sameOutcome_createBackup:
  assumes "sameBesidesTimers w w'"
  shows "sameOutcome (createBackup G E w) (createBackup G E w')"
  unfolding createBackup_def
proof (intro sameOutcome_andThen sameOutcome_getFilesChanged assms)
  fix x :: unit and u u'
  assume "sameBesidesTimers u u'"
  then show "sameOutcome (Inr (), setState E Idle u) (Inr (), setState E Idle u')"
    by (intro sameOutcome_resolved sameBesidesTimers_setState)
next
  fix files :: "string list" and u u'
  assume u: "sameBesidesTimers u u'"
  show "sameOutcome
          (if length files = 0 then (Inr (), u)
           else andThen
                  (andThen (andThen (add G E u) (\<lambda>u w2. commit G E w2))
                     (\<lambda>ua w3. (Inr (),
                        displayMessage (''Committed '' @ String_of_nat (length files) @ '' files'')
                          None w3)))
                  (\<lambda>u w4. if autoPush (settings w4)
                     then andThen (push G E w4)
                            (\<lambda>u w5. (Inr (),
                               displayMessage
                                 (''Pushed '' @ String_of_nat (length files) @ '' files to remote'')
                                 None w5))
                     else (Inr (), w4)))
          (if length files = 0 then (Inr (), u')
           else andThen
                  (andThen (andThen (add G E u') (\<lambda>u w2. commit G E w2))
                     (\<lambda>ua w3. (Inr (),
                        displayMessage (''Committed '' @ String_of_nat (length files) @ '' files'')
                          None w3)))
                  (\<lambda>u w4. if autoPush (settings w4)
                     then andThen (push G E w4)
                            (\<lambda>u w5. (Inr (),
                               displayMessage
                                 (''Pushed '' @ String_of_nat (length files) @ '' files to remote'')
                                 None w5))
                     else (Inr (), w4)))"
  proof (cases "length files = 0")
    case True
    with u show ?thesis by (simp add: sameOutcome_resolved)
  next
    case False
    have tail: "\<And>x v v'. sameBesidesTimers v v' \<Longrightarrow>
        sameOutcome
          (if autoPush (settings v)
           then andThen (push G E v)
                  (\<lambda>u w5. (Inr (),
                     displayMessage
                       (''Pushed '' @ String_of_nat (length files) @ '' files to remote'') None w5))
           else (Inr (), v))
          (if autoPush (settings v')
           then andThen (push G E v')
                  (\<lambda>u w5. (Inr (),
                     displayMessage
                       (''Pushed '' @ String_of_nat (length files) @ '' files to remote'') None w5))
           else (Inr (), v'))"
    proof -
      fix x :: unit and v v'
      assume v: "sameBesidesTimers v v'"
      then have ap: "autoPush (settings v') = autoPush (settings v)"
        by (simp add: sameBesidesTimers_def)
      show "sameOutcome
          (if autoPush (settings v)
           then andThen (push G E v)
                  (\<lambda>u w5. (Inr (),
                     displayMessage
                       (''Pushed '' @ String_of_nat (length files) @ '' files to remote'') None w5))
           else (Inr (), v))
          (if autoPush (settings v')
           then andThen (push G E v')
                  (\<lambda>u w5. (Inr (),
                     displayMessage
                       (''Pushed '' @ String_of_nat (length files) @ '' files to remote'') None w5))
           else (Inr (), v'))"
        unfolding ap using v
        by (auto intro!: sameOutcome_andThen sameOutcome_push sameOutcome_resolved
              sameBesidesTimers_displayMessage)
    qed
    from False show ?thesis
      apply simp
      apply (rule sameOutcome_andThen)
       apply (intro sameOutcome_andThen sameOutcome_add u sameOutcome_commit
                sameOutcome_resolved sameBesidesTimers_displayMessage; assumption)
      apply (rule tail, assumption)
      done
  qed
qed

lemma sameOutcome_pullChangesFromRemote:
  assumes "sameBesidesTimers w w'"
  shows "sameOutcome (pullChangesFromRemote G E w) (pullChangesFromRemote G E w')"
  unfolding pullChangesFromRemote_def
  by (intro sameOutcome_andThen sameOutcome_pull assms)
     (auto intro!: sameOutcome_resolved sameBesidesTimers_displayMessage
        sameBesidesTimers_setState)

lemma sameOutcome_pushCommand:
  assumes "sameBesidesTimers w w'"
  shows "sameOutcome (pushCommand G E w) (pushCommand G E w')"
  unfolding pushCommand_def
  by (intro sameOutcome_andThen sameOutcome_getFilesChanged assms)
     (auto intro!: sameOutcome_resolved sameBesidesTimers_displayMessage
        sameOutcome_createBackup)

lemma sameBesidesTimers_onChange:
  "sameBesidesTimers w (onChange_autoSaveInterval E v w)"
  by (simp add: sameBesidesTimers_def onChange_autoSaveInterval_def saveData_def Notice_def
      disableAutoBackup_def clearInterval_def enableAutoBackup_def setInterval_def Let_def
      split: prod.split bool.split)

text \<open>
  Claim C5. Let the interval field be set to a number, on a plugin that can be reached from
  loading. If the number is not positive, no backup timer is active afterwards, so whatever
  timers of the window fire from then on, no git call is made; if it is positive, exactly
  one backup timer is active, and its period is the product \<^verbatim>\<open>minutes * 60000\<close> of that
  number, computed once when the timer is armed. The commands do not depend on the timer:
  a pull still makes its call, and the pull command and the command "Commit *all* changes
  and push" settle as they would have before the change, with the same git calls, state,
  status bar and \<open>lastUpdate\<close>.
\<close>

theorem interval_change_rearms_or_disarms:
  assumes "reachable G E w" and "\<not> isNaN (Number E v)"
  shows "(if gt0 (Number E v)
          then backupTimers (onChange_autoSaveInterval E v w)
                 = [(Suc (lastHandle w), Interval Backup (times60000 E (Number E v)))]
          else backupTimers (onChange_autoSaveInterval E v w) = []
               \<and> (\<forall>hs. calls (fires G E hs (onChange_autoSaveInterval E v w)) = calls w))
       \<and> calls (snd (pullChangesFromRemote G E (onChange_autoSaveInterval E v w)))
           = calls w @ [Git_pull]
       \<and> sameOutcome (pullChangesFromRemote G E w)
           (pullChangesFromRemote G E (onChange_autoSaveInterval E v w))
       \<and> sameOutcome (pushCommand G E w)
           (pushCommand G E (onChange_autoSaveInterval E v w))"
  using onChange_autoSaveInterval_effect [OF reachable_backupTracked [OF assms(1)] assms(2), of G]
    sameOutcome_pullChangesFromRemote [OF sameBesidesTimers_onChange, of G E w E v]
    sameOutcome_pushCommand [OF sameBesidesTimers_onChange, of G E w E v]
  by simp

lemma onload_default: "onload (workingGit files) frozenWindow newPlugin = (Inr (), loadedPlugin)"
  by (simp add: onload_def andThen_def Let_def scriptedGit_def frozenWindow_def newPlugin_def
      loadedPlugin_def defaultSettings_def ObsidianGitSettings_new_def setState_def
      refreshStatusBar_def displayState_def displayFromNow_def setText_def setInterval_def
      trim_def isWhiteSpace_def)

lemma onChange_5:
  "onChange_autoSaveInterval frozenWindow ''5'' loadedPlugin
   = loadedPlugin
       \<lparr>settings := defaultSettings\<lparr>autoSaveInterval := Num 5\<rparr>,
        intervalID := Some 2,
        timers := [(1, Interval RefreshBar (Num 1000)), (2, Interval Backup (Num 300000))],
        lastHandle := 2,
        registered := [1, 2],
        notices := [''Automatic backup enabled! Every 5 minutes.''],
        saved := [defaultSettings\<lparr>autoSaveInterval := Num 5\<rparr>]\<rparr>"
  by (simp add: onChange_autoSaveInterval_def frozenWindow_def decimalNumber_5 saveData_def
      disableAutoBackup_def enableAutoBackup_def setInterval_def Notice_def Let_def
      loadedPlugin_def defaultSettings_def String_of_nat.simps digit_def)

lemma onChange_5_then_0:
  "onChange_autoSaveInterval frozenWindow ''0''
     (onChange_autoSaveInterval frozenWindow ''5'' loadedPlugin)
   = loadedPlugin
       \<lparr>settings := defaultSettings,
        intervalID := Some 2,
        timers := [(1, Interval RefreshBar (Num 1000))],
        lastHandle := 2,
        registered := [1, 2],
        notices := [''Automatic backup enabled! Every 5 minutes.'', ''Automatic backup disabled!''],
        saved := [defaultSettings\<lparr>autoSaveInterval := Num 5\<rparr>, defaultSettings]\<rparr>"
  unfolding onChange_5
  by (simp add: onChange_autoSaveInterval_def frozenWindow_def decimalNumber_0 saveData_def
      disableAutoBackup_def clearInterval_def Notice_def Let_def
      loadedPlugin_def defaultSettings_def)

lemma armed_timer_runs_cycle:
  "calls (fire (workingGit [''a.md'', ''b.md'']) frozenWindow 2
            (onChange_autoSaveInterval frozenWindow ''5'' loadedPlugin))
   = [Git_status, Git_add ''./*'', Git_commit ''vault backup: 2024-01-01 00:00:00'',
      Git_push ''origin'' ''master'']"
  unfolding onChange_5
  by (simp add: fire_def runCallback_def run_defs)

lemma command_after_5_then_0:
  "pushCommand (workingGit [''a.md'', ''b.md'']) frozenWindow
     (onChange_autoSaveInterval frozenWindow ''0''
        (onChange_autoSaveInterval frozenWindow ''5'' loadedPlugin))
   = (Inr (),
      loadedPlugin
        \<lparr>statusBar := \<lparr>statusBarEl = ''git: pushed 2 files to remote'', isDisplayingMessage = True\<rparr>,
         intervalID := Some 2,
         lastUpdate := Some 1704067200000,
         timers := [(1, Interval RefreshBar (Num 1000)), (3, Timeout ResetMessage (Num 4000)),
                    (4, Timeout ResetMessage (Num 4000))],
         lastHandle := 4,
         registered := [1, 2],
         notices := [''Automatic backup enabled! Every 5 minutes.'', ''Automatic backup disabled!'',
                     ''Committed 2 files'', ''Pushed 2 files to remote''],
         console := [''git obsidian: Committed 2 files'', ''git obsidian: Pushed 2 files to remote''],
         saved := [defaultSettings\<lparr>autoSaveInterval := Num 5\<rparr>, defaultSettings],
         calls := [Git_status, Git_status, Git_add ''./*'',
                   Git_commit ''vault backup: 2024-01-01 00:00:00'',
                   Git_push ''origin'' ''master'']\<rparr>)"
  unfolding onChange_5_then_0
  by (simp add: run_defs)

text \<open>
  The interval set to 5 and then to 0 on the freshly loaded plugin: the timer of 300000 ms
  that was armed (and that ran a cycle when it fired) is gone, only the status-bar refresh
  is left, and no sequence of timer events makes a git call. The commands still run: the
  pull makes its call, and the push command checks the status, adds, commits and pushes.
\<close>

theorem interval_change_rearms_or_disarms_witness:
  "reachable (workingGit [''a.md'', ''b.md'']) frozenWindow
     loadedPlugin
   \<and> \<not> isNaN (Number frozenWindow ''5'')
   \<and> gt0 (Number frozenWindow ''5'')
   \<and> times60000 frozenWindow (Number frozenWindow ''5'') = Num 300000
   \<and> backupTimers (onChange_autoSaveInterval frozenWindow ''5'' loadedPlugin)
       = [(2, Interval Backup (Num 300000))]
   \<and> calls (fire (workingGit [''a.md'', ''b.md'']) frozenWindow 2
              (onChange_autoSaveInterval frozenWindow ''5'' loadedPlugin))
       = [Git_status, Git_add ''./*'', Git_commit ''vault backup: 2024-01-01 00:00:00'',
          Git_push ''origin'' ''master'']
   \<and> reachable (workingGit [''a.md'', ''b.md'']) frozenWindow
       (onChange_autoSaveInterval frozenWindow ''5'' loadedPlugin)
   \<and> \<not> isNaN (Number frozenWindow ''0'')
   \<and> \<not> gt0 (Number frozenWindow ''0'')
   \<and> backupTimers (onChange_autoSaveInterval frozenWindow ''0''
                      (onChange_autoSaveInterval frozenWindow ''5'' loadedPlugin)) = []
   \<and> timers (onChange_autoSaveInterval frozenWindow ''0''
                (onChange_autoSaveInterval frozenWindow ''5'' loadedPlugin))
       = [(1, Interval RefreshBar (Num 1000))]
   \<and> (\<forall>hs. calls (fires (workingGit [''a.md'', ''b.md''])
                     frozenWindow hs
                     (onChange_autoSaveInterval frozenWindow ''0''
                        (onChange_autoSaveInterval frozenWindow ''5'' loadedPlugin))) = [])
   \<and> calls (snd (pullChangesFromRemote
                   (workingGit [''a.md'', ''b.md'']) frozenWindow
                   (onChange_autoSaveInterval frozenWindow ''0''
                      (onChange_autoSaveInterval frozenWindow ''5'' loadedPlugin))))
       = [Git_pull]
   \<and> fst (pullChangesFromRemote
            (workingGit [''a.md'', ''b.md'']) frozenWindow
            (onChange_autoSaveInterval frozenWindow ''0''
               (onChange_autoSaveInterval frozenWindow ''5'' loadedPlugin)))
       = fst (pullChangesFromRemote
                (workingGit [''a.md'', ''b.md'']) frozenWindow
                (onChange_autoSaveInterval frozenWindow ''5'' loadedPlugin))
   \<and> fst (pushCommand
            (workingGit [''a.md'', ''b.md'']) frozenWindow
            (onChange_autoSaveInterval frozenWindow ''0''
               (onChange_autoSaveInterval frozenWindow ''5'' loadedPlugin)))
       = fst (pushCommand
                (workingGit [''a.md'', ''b.md'']) frozenWindow
                (onChange_autoSaveInterval frozenWindow ''5'' loadedPlugin))
   \<and> calls (snd (pushCommand
            (workingGit [''a.md'', ''b.md'']) frozenWindow
            (onChange_autoSaveInterval frozenWindow ''0''
               (onChange_autoSaveInterval frozenWindow ''5'' loadedPlugin))))
       = calls (snd (pushCommand
                (workingGit [''a.md'', ''b.md'']) frozenWindow
                (onChange_autoSaveInterval frozenWindow ''5'' loadedPlugin)))
   \<and> pushCommand
        (workingGit [''a.md'', ''b.md'']) frozenWindow
        (onChange_autoSaveInterval frozenWindow ''0''
           (onChange_autoSaveInterval frozenWindow ''5'' loadedPlugin))
       = (Inr (),
      loadedPlugin
        \<lparr>statusBar := \<lparr>statusBarEl = ''git: pushed 2 files to remote'', isDisplayingMessage = True\<rparr>,
         intervalID := Some 2,
         lastUpdate := Some 1704067200000,
         timers := [(1, Interval RefreshBar (Num 1000)), (3, Timeout ResetMessage (Num 4000)),
                    (4, Timeout ResetMessage (Num 4000))],
         lastHandle := 4,
         registered := [1, 2],
         notices := [''Automatic backup enabled! Every 5 minutes.'', ''Automatic backup disabled!'',
                     ''Committed 2 files'', ''Pushed 2 files to remote''],
         console := [''git obsidian: Committed 2 files'', ''git obsidian: Pushed 2 files to remote''],
         saved := [defaultSettings\<lparr>autoSaveInterval := Num 5\<rparr>, defaultSettings],
         calls := [Git_status, Git_status, Git_add ''./*'',
                   Git_commit ''vault backup: 2024-01-01 00:00:00'',
                   Git_push ''origin'' ''master'']\<rparr>)"
proof -
  let ?G = "workingGit [''a.md'', ''b.md'']"
  let ?w5 = "onChange_autoSaveInterval frozenWindow ''5'' loadedPlugin"
  let ?w50 = "onChange_autoSaveInterval frozenWindow ''0'' ?w5"
  have "timers newPlugin = []" by (simp add: newPlugin_def)
  from reachable.loaded [OF this, of ?G frozenWindow]
  have r0: "reachable ?G frozenWindow loadedPlugin" by (simp add: onload_default)
  then have r5: "reachable ?G frozenWindow ?w5" by (rule reachable.interval_setting)
  have n5: "\<not> isNaN (Number frozenWindow ''5'')" and g5: "gt0 (Number frozenWindow ''5'')"
    and m5: "times60000 frozenWindow (Number frozenWindow ''5'') = Num 300000"
    by (simp_all add: frozenWindow_def decimalNumber_5)
  have n0: "\<not> isNaN (Number frozenWindow ''0'')" and g0: "\<not> gt0 (Number frozenWindow ''0'')"
    by (simp_all add: frozenWindow_def decimalNumber_0)
  have h0: "Suc (lastHandle loadedPlugin) = 2" and c0: "calls loadedPlugin = []"
    by (simp_all add: loadedPlugin_def)
  note first = interval_change_rearms_or_disarms [OF r0 n5]
  from first g5 m5 h0 have armed: "backupTimers ?w5 = [(2, Interval Backup (Num 300000))]"
    by simp
  have c5: "calls ?w5 = []" unfolding onChange_5 by (simp add: loadedPlugin_def)
  note second = interval_change_rearms_or_disarms [OF r5 n0]
  from second g0 c5 have
    disarmed: "backupTimers ?w50 = []"
    and never: "\<forall>hs. calls (fires ?G frozenWindow hs ?w50) = []"
    and manual: "calls (snd (pullChangesFromRemote ?G frozenWindow ?w50)) = [Git_pull]"
    by simp_all
  from second have
    so1: "sameOutcome (pullChangesFromRemote ?G frozenWindow ?w5)
            (pullChangesFromRemote ?G frozenWindow ?w50)"
    and so2: "sameOutcome (pushCommand ?G frozenWindow ?w5) (pushCommand ?G frozenWindow ?w50)"
    by blast+
  from so1 have pl: "fst (pullChangesFromRemote ?G frozenWindow ?w50)
                       = fst (pullChangesFromRemote ?G frozenWindow ?w5)"
    by (simp add: sameOutcome_def)
  from so2 have ps: "fst (pushCommand ?G frozenWindow ?w50) = fst (pushCommand ?G frozenWindow ?w5)"
    and pc: "calls (snd (pushCommand ?G frozenWindow ?w50))
               = calls (snd (pushCommand ?G frozenWindow ?w5))"
    by (simp_all add: sameOutcome_def sameBesidesTimers_def)
  have left: "timers ?w50 = [(1, Interval RefreshBar (Num 1000))]"
    unfolding onChange_5_then_0 by (simp add: loadedPlugin_def)
  show ?thesis
    by (intro conjI)
       (rule r0 n5 g5 m5 armed armed_timer_runs_cycle r5 n0 g0 disarmed left never manual
             pl ps pc command_after_5_then_0)+
qed

section \<open>Messages on the status bar\<close>




lemma handlesGrow_refl: "handlesGrow w w"
  by (simp add: handlesGrow_def list_all_iff)

lemma handlesGrow_trans: "handlesGrow w w1 \<Longrightarrow> handlesGrow w1 w2 \<Longrightarrow> handlesGrow w w2"
  unfolding handlesGrow_def list_all_iff by fastforce

lemma handlesGrow_used: "handlesGrow w w' \<Longrightarrow> handlesUsed w \<Longrightarrow> handlesUsed w'"
  unfolding handlesGrow_def handlesUsed_def list_all_iff by fastforce

lemma handlesGrow_same:
  "timers w' = timers w \<Longrightarrow> lastHandle w' = lastHandle w \<Longrightarrow> handlesGrow w w'"
  by (simp add: handlesGrow_def list_all_iff)

lemma handlesGrow_andThen:
  assumes "handlesGrow w (snd p)" and "\<And>x w1. handlesGrow w1 (snd (k x w1))"
  shows "handlesGrow w (snd (andThen p k))"
  using assms by (cases p) (auto simp: andThen_def split: sum.split intro: handlesGrow_trans)

lemma handlesGrow_StatusBar_displayMessage: "handlesGrow w (StatusBar_displayMessage m t w)"
  by (simp add: handlesGrow_def StatusBar_displayMessage_def setTimeout_def Let_def list_all_iff)

lemma handlesGrow_displayMessage: "handlesGrow w (displayMessage m t w)"
  by (simp add: handlesGrow_def displayMessage_def StatusBar_displayMessage_def setTimeout_def
      Notice_def Let_def list_all_iff)

lemma handlesGrow_displayError: "handlesGrow w (displayError m t w)"
  by (simp add: handlesGrow_def displayError_def StatusBar_displayMessage_def setTimeout_def
      Notice_def Let_def list_all_iff)

lemma handlesGrow_setState: "handlesGrow w (setState E st w)"
  by (simp add: handlesGrow_same)

lemma handlesGrow_getFilesChanged: "handlesGrow w (snd (getFilesChanged G E w))"
  by (simp add: handlesGrow_same getFilesChanged_eq)

lemma handlesGrow_formatCommitMessage: "handlesGrow w (snd (formatCommitMessage G E t w))"
  by (simp add: handlesGrow_same formatCommitMessage_def andThen_def status_def split: sum.split)

lemma handlesGrow_add: "handlesGrow w (snd (add G E w))"
proof -
  let ?w2 = "(setState E Add w)\<lparr>calls := calls (setState E Add w) @ [Git_add ''./*'']\<rparr>"
  have a: "handlesGrow w ?w2" by (simp add: handlesGrow_same)
  show ?thesis
  proof (cases "git_add G (calls w)")
    case (Inl err)
    then have "snd (add G E w) = displayError (''Cannot add files: '' @ err) None ?w2"
      by (simp add: add_def Let_def)
    with a handlesGrow_displayError [of ?w2] show ?thesis
      by (auto intro: handlesGrow_trans)
  next
    case (Inr u)
    then have "snd (add G E w) = ?w2" by (simp add: add_def Let_def)
    with a show ?thesis by simp
  qed
qed

lemma handlesGrow_push: "handlesGrow w (snd (push G E w))"
proof -
  let ?w2 = "(setState E Push w)\<lparr>calls := calls (setState E Push w)
                @ [Git_push (remote (settings (setState E Push w)))
                     (currentBranch (settings (setState E Push w)))]\<rparr>"
  have a: "handlesGrow w ?w2" by (simp add: handlesGrow_same)
  show ?thesis
  proof (cases "git_push G (calls w)")
    case (Inl err)
    then have "snd (push G E w) = displayError (''Push failed '' @ err) None ?w2"
      by (simp add: push_def Let_def)
    with a handlesGrow_displayError [of ?w2] show ?thesis
      by (auto intro: handlesGrow_trans)
  next
    case (Inr u)
    then have "snd (push G E w) = ?w2\<lparr>lastUpdate := Some (dateNow E (calls ?w2))\<rparr>"
      by (simp add: push_def Let_def)
    then show ?thesis by (simp add: handlesGrow_same)
  qed
qed

lemma handlesGrow_pull: "handlesGrow w (snd (pull G E w))"
proof -
  let ?w2 = "(setState E Pull w)\<lparr>calls := calls (setState E Pull w) @ [Git_pull]\<rparr>"
  have a: "handlesGrow w ?w2" by (simp add: handlesGrow_same)
  show ?thesis
  proof (cases "git_pull G (calls w)")
    case (Inl err)
    then have "snd (pull G E w) = displayError (''Pull failed '' @ err) None ?w2"
      by (simp add: pull_def Let_def)
    with a handlesGrow_displayError [of ?w2] show ?thesis
      by (auto intro: handlesGrow_trans)
  next
    case (Inr files)
    then have "snd (pull G E w) = ?w2\<lparr>lastUpdate := Some (dateNow E (calls ?w2))\<rparr>"
      by (simp add: pull_def Let_def)
    then show ?thesis by (simp add: handlesGrow_same)
  qed
qed

lemma handlesGrow_commit: "handlesGrow w (snd (commit G E w))"
  unfolding commit_def
proof (rule handlesGrow_andThen)
  show "handlesGrow w
          (snd (formatCommitMessage G E (commitMessage (settings w)) (setState E Commit w)))"
    using handlesGrow_setState handlesGrow_formatCommitMessage handlesGrow_trans by blast
qed (simp add: handlesGrow_same)

lemma handlesGrow_createBackup: "handlesGrow w (snd (createBackup G E w))"
  unfolding createBackup_def
  by (intro handlesGrow_andThen handlesGrow_getFilesChanged)
     (auto intro!: handlesGrow_andThen
           simp: handlesGrow_add handlesGrow_commit handlesGrow_push handlesGrow_displayMessage
                 handlesGrow_setState handlesGrow_refl)

lemma handlesGrow_pullChangesFromRemote: "handlesGrow w (snd (pullChangesFromRemote G E w))"
  unfolding pullChangesFromRemote_def
  by (intro handlesGrow_andThen handlesGrow_pull)
     (auto simp: handlesGrow_displayMessage handlesGrow_setState)

lemma handlesGrow_pushCommand: "handlesGrow w (snd (pushCommand G E w))"
  unfolding pushCommand_def
  by (intro handlesGrow_andThen handlesGrow_getFilesChanged)
     (auto simp: handlesGrow_displayMessage handlesGrow_createBackup)

lemma handlesGrow_clearInterval: "handlesGrow w (clearInterval h w)"
  by (simp add: handlesGrow_def clearInterval_def list_all_iff)

lemma handlesGrow_runCallback: "handlesGrow w (runCallback G E cb w)"
  by (cases cb) (simp_all add: runCallback_def handlesGrow_createBackup handlesGrow_same)

lemma handlesGrow_fire: "handlesGrow w (fire G E h w)"
  by (auto simp: fire_def handlesGrow_refl handlesGrow_runCallback
      split: option.split timer.split
      intro: handlesGrow_trans [OF handlesGrow_clearInterval handlesGrow_runCallback])

lemma handlesGrow_enableAutoBackup: "handlesGrow w (enableAutoBackup E w)"
  by (simp add: handlesGrow_def enableAutoBackup_def setInterval_def Let_def list_all_iff)

lemma handlesGrow_disableAutoBackup: "handlesGrow w (snd (disableAutoBackup w))"
  by (simp add: disableAutoBackup_def handlesGrow_clearInterval handlesGrow_refl)

lemma handlesGrow_Notice: "handlesGrow w (Notice m w)"
  by (simp add: handlesGrow_same Notice_def)

lemma handlesGrow_onChange: "handlesGrow w (onChange_autoSaveInterval E v w)"
proof (cases "isNaN (Number E v)")
  case True
  then show ?thesis by (simp add: onChange_autoSaveInterval_def handlesGrow_Notice)
next
  case False
  let ?w1 = "saveData (w\<lparr>settings := (settings w)\<lparr>autoSaveInterval := Number E v\<rparr>\<rparr>)"
  have a: "handlesGrow w ?w1" by (simp add: handlesGrow_same saveData_def)
  have b: "handlesGrow w (snd (disableAutoBackup ?w1))"
    using a handlesGrow_disableAutoBackup [of ?w1] by (rule handlesGrow_trans)
  have s1: "autoSaveInterval (settings ?w1) = Number E v" by (simp add: saveData_def)
  show ?thesis
  proof (cases "gt0 (Number E v)")
    case True
    have "handlesGrow w (enableAutoBackup E (snd (disableAutoBackup ?w1)))"
      using b handlesGrow_enableAutoBackup by (rule handlesGrow_trans)
    then have "handlesGrow w
        (Notice (''Automatic backup enabled! Every '' @ String_of_number E (Number E v)
                   @ '' minutes.'')
           (enableAutoBackup E (snd (disableAutoBackup ?w1))))"
      using handlesGrow_Notice by (rule handlesGrow_trans)
    then show ?thesis
      using False True by (simp add: onChange_autoSaveInterval_def Let_def s1)
  next
    case ng: False
    show ?thesis
    proof (cases "le0 (Number E v) \<and> defined (intervalID ?w1)")
      case True
      then have d: "disableAutoBackup ?w1 = (True, snd (disableAutoBackup ?w1))"
        by (simp add: disableAutoBackup_def)
      have "handlesGrow w (Notice ''Automatic backup disabled!'' (snd (disableAutoBackup ?w1)))"
        using b handlesGrow_Notice by (rule handlesGrow_trans)
      moreover have "onChange_autoSaveInterval E v w
          = Notice ''Automatic backup disabled!'' (snd (disableAutoBackup ?w1))"
        using False ng True
        by (simp add: onChange_autoSaveInterval_def Let_def s1) (simp add: disableAutoBackup_def)
      ultimately show ?thesis by simp
    next
      case nd: False
      then have "onChange_autoSaveInterval E v w = ?w1"
        using False ng by (auto simp: onChange_autoSaveInterval_def Let_def s1)
      with a show ?thesis by simp
    qed
  qed
qed

lemma onload_tail_handles:
  "handlesGrow w
     (snd (let w8 = (if gt0 (autoSaveInterval (settings w)) then enableAutoBackup E w else w);
               (h, w9) = setInterval RefreshBar (Num 1000) w8
           in (Inr (), w9\<lparr>registered := registered w9 @ [h]\<rparr>)))"
proof -
  let ?w8 = "if gt0 (autoSaveInterval (settings w)) then enableAutoBackup E w else w"
  have "handlesGrow w ?w8" by (simp add: handlesGrow_enableAutoBackup handlesGrow_refl)
  moreover have "handlesGrow ?w8
      ((snd (setInterval RefreshBar (Num 1000) ?w8))
         \<lparr>registered := registered (snd (setInterval RefreshBar (Num 1000) ?w8))
                          @ [fst (setInterval RefreshBar (Num 1000) ?w8)]\<rparr>)"
    by (simp add: handlesGrow_def setInterval_def list_all_iff)
  ultimately have "handlesGrow w
      ((snd (setInterval RefreshBar (Num 1000) ?w8))
         \<lparr>registered := registered (snd (setInterval RefreshBar (Num 1000) ?w8))
                          @ [fst (setInterval RefreshBar (Num 1000) ?w8)]\<rparr>)"
    by (rule handlesGrow_trans)
  then show ?thesis by (simp add: Let_def split_def)
qed

lemma handlesGrow_onload: "handlesGrow w (snd (onload G E w))"
proof -
  let ?w2 = "(setState E Idle (w\<lparr>statusBar := \<lparr>statusBarEl = [], isDisplayingMessage = False\<rparr>\<rparr>))
               \<lparr>settings := (case loadData E of Some s \<Rightarrow> s | None \<Rightarrow> ObsidianGitSettings_new)\<rparr>"
  have g2: "handlesGrow w ?w2" by (simp add: handlesGrow_same)
  show ?thesis
  proof (cases "git_branch G")
    case (Inl e)
    then show ?thesis using g2 by (simp add: onload_def andThen_def Let_def)
  next
    case branch: (Inr current)
    let ?w3 = "?w2\<lparr>settings := (settings ?w2)\<lparr>currentBranch := current\<rparr>\<rparr>"
    have g3: "handlesGrow w ?w3" by (simp add: handlesGrow_same)
    show ?thesis
    proof (cases "git_remote G")
      case (Inl e)
      then show ?thesis
        using branch g3 by (simp add: onload_def andThen_def Let_def)
    next
      case remote: (Inr remoteAnswer)
      show ?thesis
      proof (cases remoteAnswer)
        case None
        have "handlesGrow w (displayMessage ''Failed to detect remote.'' (Some (Num 0)) ?w3)"
          using g3 handlesGrow_displayMessage by (rule handlesGrow_trans)
        then show ?thesis
          using branch remote None by (simp add: onload_def andThen_def Let_def)
      next
        case (Some r)
        let ?w5 = "?w3\<lparr>settings := (settings ?w3)\<lparr>remote := trim r\<rparr>\<rparr>"
        have g5: "handlesGrow w ?w5" by (simp add: handlesGrow_same)
        let ?boot = "if autoPullOnBoot (settings ?w5)
                     then andThen (pull G E ?w5)
                            (\<lambda>filesUpdated w6.
                               (Inr (),
                                displayMessage
                                  (if filesUpdated > 0
                                   then ''Pulled new changes. '' @ String_of_nat filesUpdated
                                          @ '' files updated''
                                   else ''Everything up-to-date'')
                                  None (setState E Idle w6)))
                     else (Inr (), ?w5)"
        have "handlesGrow ?w5 (snd ?boot)"
        proof (cases "autoPullOnBoot (settings ?w5)")
          case False
          then show ?thesis by (simp add: handlesGrow_refl)
        next
          case True
          have "handlesGrow ?w5
                  (snd (andThen (pull G E ?w5)
                            (\<lambda>filesUpdated w6.
                               (Inr (),
                                displayMessage
                                  (if filesUpdated > 0
                                   then ''Pulled new changes. '' @ String_of_nat filesUpdated
                                          @ '' files updated''
                                   else ''Everything up-to-date'')
                                  None (setState E Idle w6)))))"
          proof (rule handlesGrow_andThen [OF handlesGrow_pull])
            fix x w1
            show "handlesGrow w1
                    (snd (Inr (),
                          displayMessage
                            (if x > 0
                             then ''Pulled new changes. '' @ String_of_nat x @ '' files updated''
                             else ''Everything up-to-date'')
                            None (setState E Idle w1)))"
              using handlesGrow_trans [OF handlesGrow_setState handlesGrow_displayMessage]
              by simp
          qed
          with True show ?thesis by simp
        qed
        with g5 have gb: "handlesGrow w (snd ?boot)" by (rule handlesGrow_trans)
        have eq: "onload G E w =
                    andThen ?boot
                      (\<lambda>u w7.
                          let w8 = (if gt0 (autoSaveInterval (settings w7))
                                    then enableAutoBackup E w7 else w7);
                              (h, w9) = setInterval RefreshBar (Num 1000) w8
                          in (Inr (), w9\<lparr>registered := registered w9 @ [h]\<rparr>))"
          using branch remote Some by (simp add: onload_def andThen_def Let_def)
        show ?thesis
          unfolding eq using gb onload_tail_handles by (rule handlesGrow_andThen)
      qed
    qed
  qed
qed

lemma reachable_handlesUsed: "reachable G E w \<Longrightarrow> handlesUsed w"
proof (induction rule: reachable.induct)
  case (loaded w)
  then have "handlesUsed w" by (simp add: handlesUsed_def)
  with handlesGrow_onload show ?case by (rule handlesGrow_used)
next
  case (timer_fires w h)
  from handlesGrow_used [OF handlesGrow_fire timer_fires.IH] show ?case .
next
  case (pull_command w)
  from handlesGrow_used [OF handlesGrow_pullChangesFromRemote pull_command.IH] show ?case .
next
  case (push_command w)
  from handlesGrow_used [OF handlesGrow_pushCommand push_command.IH] show ?case .
next
  case (preview w)
  from handlesGrow_used [OF handlesGrow_formatCommitMessage preview.IH] show ?case .
next
  case (interval_setting w v)
  from handlesGrow_used [OF handlesGrow_onChange interval_setting.IH] show ?case .
next
  case (other_setting w s)
  then show ?case by (simp add: saveData_def handlesUsed_def)
qed




































lemmas bar_defs =
  fire_def runCallback_def clearInterval_def refreshStatusBar_def displayState_def
  displayFromNow_def setText_def displayMessage_def displayError_def
  StatusBar_displayMessage_def setTimeout_def Notice_def toLowerCase_def lowerChar_def Let_def
  frozenWindow_def loadedPlugin_def defaultSettings_def






text \<open>
  Claim C10 says that a message displayed with a non-positive timeout suppresses the phase
  display until a later message with a positive timeout has elapsed. The code at a failing
  input, the cycle whose push fails within 4000 ms of its commit: the error is displayed
  with the timeout 0 and schedules no reset, but the reset of "Committed 1 files" is still
  pending, since no message cancels the reset of the one before. When it fires the flag is
  cleared, and the next refresh overwrites the error with the line of the phase, with no
  later message displayed.
\<close>


theorem error_wiped_by_earlier_reset:
  "isDisplayingMessage (statusBar
      (displayError ''Push failed network error'' None
         (displayMessage ''Committed 1 files'' None loadedPlugin)))
   \<and> statusBarEl (statusBar
        (displayError ''Push failed network error'' None
           (displayMessage ''Committed 1 files'' None loadedPlugin)))
       = ''git: push failed network error''
   \<and> timers (displayError ''Push failed network error'' None
               (displayMessage ''Committed 1 files'' None loadedPlugin))
       = [(1, Interval RefreshBar (Num 1000)), (2, Timeout ResetMessage (Num 4000))]
   \<and> \<not> isDisplayingMessage (statusBar
        (fire (workingGit []) frozenWindow 2
           (displayError ''Push failed network error'' None
              (displayMessage ''Committed 1 files'' None loadedPlugin))))
   \<and> statusBarEl (statusBar
        (fires (workingGit []) frozenWindow [2, 1]
           (displayError ''Push failed network error'' None
              (displayMessage ''Committed 1 files'' None loadedPlugin))))
       = ''git: ready''
   \<and> statusBarEl (statusBar
        (snd (createBackup (scriptedGit [''a.md''] (Inr ()) (Inr ()) (Inl ''network error'') (Inr []))
                frozenWindow loadedPlugin)))
       = ''git: push failed network error''
   \<and> timers (snd (createBackup
                     (scriptedGit [''a.md''] (Inr ()) (Inr ()) (Inl ''network error'') (Inr []))
                     frozenWindow loadedPlugin))
       = [(1, Interval RefreshBar (Num 1000)), (2, Timeout ResetMessage (Num 4000))]
   \<and> statusBarEl (statusBar
        (fires (scriptedGit [''a.md''] (Inr ()) (Inr ()) (Inl ''network error'') (Inr []))
           frozenWindow [2, 1]
           (snd (createBackup (scriptedGit [''a.md''] (Inr ()) (Inr ()) (Inl ''network error'') (Inr []))
                   frozenWindow loadedPlugin))))
       = ''git: pushing changes..''"
  unfolding run_push_fails
  by (simp add: bar_defs)

end
